theory Spec2Isabelle
  imports Main "HOL-Library.Multiset"
begin

section \<open>Partitioning and batching of binding descriptors\<close>

text \<open>
  \<^verbatim>\<open>partitionFields\<close> works in place on the slice \<open>f\<close>.  Its first loop advances
  \<open>i\<close> to the first element satisfying \<open>suffix\<close>; its second loop walks \<open>j\<close>
  from \<open>i + 1\<close> and swaps every element that does not satisfy \<open>suffix\<close> down to
  position \<open>i\<close>.  The slice is a list updated by index; both indices stay
  within \<open>0 .. len(f)\<close>, so they are natural numbers.
\<close>

function partitionScan :: "('a \<Rightarrow> bool) \<Rightarrow> 'a list \<Rightarrow> nat \<Rightarrow> nat" where
  "partitionScan suffix f i =
     (if i < length f
      then (if suffix (f ! i) then i else partitionScan suffix f (i + 1))
      else i)"
  by pat_completeness auto
termination
  by (relation "measure (\<lambda>(suffix, f, i). length f - i)") auto

declare partitionScan.simps [simp del]

function partitionSwap :: "('a \<Rightarrow> bool) \<Rightarrow> 'a list \<Rightarrow> nat \<Rightarrow> nat \<Rightarrow> 'a list \<times> nat" where
  "partitionSwap suffix f i j =
     (if j < length f
      then (if \<not> suffix (f ! j)
            then partitionSwap suffix (f[i := f ! j, j := f ! i]) (i + 1) (j + 1)
            else partitionSwap suffix f i (j + 1))
      else (f, i))"
  by pat_completeness auto
termination
  by (relation "measure (\<lambda>(suffix, f, i, j). length f - j)") auto

declare partitionSwap.simps [simp del]

definition partitionFields :: "'a list \<Rightarrow> ('a \<Rightarrow> bool) \<Rightarrow> 'a list \<times> 'a list" where
  "partitionFields f suffix =
     (let i = partitionScan suffix f 0;
          (f', i') = partitionSwap suffix f i (i + 1)
      in (take i' f', drop i' f'))"

text \<open>
  The state of the second loop, seen as three segments: the elements already
  moved to the front (\<open>A\<close>), the elements satisfying \<open>suffix\<close> between \<open>i\<close> and
  \<open>j\<close> (\<open>B\<close>), and the part not yet visited.  A swap moves the visited element
  behind \<open>A\<close> and the first element of \<open>B\<close> to the end of \<open>B\<close>.
\<close>

fun rot :: "('a \<Rightarrow> bool) \<Rightarrow> 'a list \<Rightarrow> 'a list \<Rightarrow> 'a list \<Rightarrow> 'a list \<times> 'a list" where
  "rot P A B [] = (A, B)"
| "rot P A B (c # cs) =
     (if \<not> P c then rot P (A @ [c]) (tl B @ [hd B]) cs else rot P A (B @ [c]) cs)"

text \<open>
  A call either returns or panics.  Go's \<open>error\<close> result is an option:
  \<open>None\<close> is \<open>nil\<close>.
\<close>

datatype 'a result = Returns 'a | Panics string

text \<open>
  The slice expression \<open>f[i:j]\<close> for \<open>0 \<le> i \<le> j \<le> len(f)\<close>.
\<close>

definition slice :: "'a list \<Rightarrow> int \<Rightarrow> int \<Rightarrow> 'a list" where
  "slice f i j = take (nat (j - i)) (drop (nat i) f)"

text \<open>
  \<^verbatim>\<open>batchIterateFields\<close>: the loop runs while \<open>i < len(f)\<close>, hands \<open>f[i:j]\<close> to
  the callback and stops at the callback's first error.  The callback \<open>g\<close>
  has effects (it fetches from the store and assigns fields), so it takes and
  returns a state.  With \<open>batchSize = 0\<close> the loop makes no progress, so the
  loop is a partial function and not returning is the value \<open>None\<close>; with a
  negative \<open>batchSize\<close> the slice expression has \<open>j < i\<close> and panics.
  \<open>i\<close> and \<open>j\<close> are Go \<open>int\<close>s; \<open>i + batchSize\<close> cannot wrap around for a slice
  that fits in memory (after the first batch \<open>batchSize \<le> i < len(f)\<close>), so
  they are unbounded integers here.
\<close>

partial_function (option) batchLoop ::
  "'a list \<Rightarrow> int \<Rightarrow> ('a list \<Rightarrow> 's \<Rightarrow> 'e option \<times> 's) \<Rightarrow> int \<Rightarrow> 's
     \<Rightarrow> ('e option result \<times> 's) option" where
  "batchLoop f batchSize g i s =
     (if i < int (length f) then
        (let j = i + batchSize;
             j = (if j > int (length f) then int (length f) else j)
         in if j < i then Some (Panics ''slice bounds out of range'', s)
            else (case g (slice f i j) s of
                    (Some err, s') \<Rightarrow> Some (Returns (Some err), s')
                  | (None, s') \<Rightarrow> batchLoop f batchSize g j s'))
      else Some (Returns None, s))"

declare batchLoop.simps [code]

definition batchIterateFields ::
  "'a list \<Rightarrow> int \<Rightarrow> ('a list \<Rightarrow> 's \<Rightarrow> 'e option \<times> 's) \<Rightarrow> 's
     \<Rightarrow> ('e option result \<times> 's) option" where
  "batchIterateFields f batchSize g s = batchLoop f batchSize g 0 s"

text \<open>
  The batching contract in the specification's words: contiguous slices of at
  most \<open>n\<close> elements in original order, none for the empty list.
\<close>

function chunks :: "nat \<Rightarrow> 'a list \<Rightarrow> 'a list list" where
  "chunks n xs = (if xs = [] \<or> n = 0 then [] else take n xs # chunks n (drop n xs))"
  by pat_completeness auto
termination
  by (relation "measure (\<lambda>(n, xs). length xs)") auto

declare chunks.simps [simp del]

text \<open>
  Calling the callback on each batch in turn, stopping at the first error.
\<close>

fun runBatches :: "('a list \<Rightarrow> 's \<Rightarrow> 'e option \<times> 's) \<Rightarrow> 'a list list \<Rightarrow> 's \<Rightarrow> 'e option \<times> 's" where
  "runBatches g [] s = (None, s)"
| "runBatches g (b # bs) s =
     (case g b s of
        (Some err, s') \<Rightarrow> (Some err, s')
      | (None, s') \<Rightarrow> runBatches g bs s')"

section \<open>Types, values and errors as the binding engine sees them\<close>

text \<open>
  The engine inspects the record through \<^verbatim>\<open>reflect\<close>.  A type is modelled by what
  the code asks of it: its \<^verbatim>\<open>Name()\<close> (empty for an unnamed type), its
  \<^verbatim>\<open>String()\<close>, its kind, and the element or field types.  The kinds the code
  does not look into (maps, channels, functions, interfaces, arrays, complex
  numbers) are \<open>KOther\<close>; \<^verbatim>\<open>reflect.Bool\<close> is \<open>KBool\<close>, and so on.  A struct type is given by its finite unfolding; a
  struct type that contains itself through exported pointer fields has none,
  and on such a record the source's \<^verbatim>\<open>walk\<close> recurses without end.
\<close>

datatype pkind =
    KBool
  | KInt | KInt8 | KInt16 | KInt32 | KInt64
  | KUint | KUint8 | KUint16 | KUint32 | KUint64 | KUintptr
  | KFloat32 | KFloat64
  | KString
  | KOther

datatype gtype =
    TPrim string string pkind
  | TPtr string string gtype
  | TSlice string string gtype
  | TStruct string string "sfield list"
and sfield =
    StructField (Name: string) (PkgPath: string) (ssmTag: string) (Type: gtype)

text \<open>
  \<open>ssmTag\<close> is \<^verbatim>\<open>f.Tag.Get("ssm")\<close>: the value of the \<open>ssm\<close> key of the field's
  tag, empty when there is none.
\<close>

fun typeName :: "gtype \<Rightarrow> string" where
  "typeName (TPrim n s k) = n"
| "typeName (TPtr n s e) = n"
| "typeName (TSlice n s e) = n"
| "typeName (TStruct n s fs) = n"

fun typeString :: "gtype \<Rightarrow> string" where
  "typeString (TPrim n s k) = s"
| "typeString (TPtr n s e) = s"
| "typeString (TSlice n s e) = s"
| "typeString (TStruct n s fs) = s"

fun isPtr :: "gtype \<Rightarrow> bool" where
  "isPtr (TPtr n s e) = True"
| "isPtr t = False"

fun isStruct :: "gtype \<Rightarrow> bool" where
  "isStruct (TStruct n s fs) = True"
| "isStruct t = False"

text \<open>\<^verbatim>\<open>reflect.PtrTo\<close>: the unnamed pointer type to \<open>t\<close>.\<close>

definition ptrTo :: "gtype \<Rightarrow> gtype" where
  "ptrTo t = TPtr [] (''*'' @ typeString t) t"

text \<open>\<^verbatim>\<open>time.Duration\<close>, a defined type of kind \<open>Int64\<close>.\<close>

definition durationType :: gtype where
  "durationType = TPrim ''Duration'' ''time.Duration'' KInt64"

text \<open>
  Values.  A pointer is \<open>nil\<close> or owns its target: \<^verbatim>\<open>walk\<close> and \<^verbatim>\<open>set\<close> only
  ever store pointers to targets they have just allocated, so the fields they
  touch never share a target.  A float is its IEEE bit pattern, a value of a
  kind \<open>Other\<close> an opaque token; \<open>0\<close> is the zero value of both.  \<open>VSlice []\<close> is
  the \<open>nil\<close> slice (the code never makes an empty slice that is not \<open>nil\<close>).
\<close>

datatype gval =
    VBool bool
  | VInt int
  | VUint nat
  | VFloat nat
  | VString string
  | VPtr "gval option"
  | VSlice "gval list"
  | VStruct "gval list"
  | VOther nat

fun zeroPrim :: "pkind \<Rightarrow> gval" where
  "zeroPrim KBool = VBool False"
| "zeroPrim KInt = VInt 0"
| "zeroPrim KInt8 = VInt 0"
| "zeroPrim KInt16 = VInt 0"
| "zeroPrim KInt32 = VInt 0"
| "zeroPrim KInt64 = VInt 0"
| "zeroPrim KUint = VUint 0"
| "zeroPrim KUint8 = VUint 0"
| "zeroPrim KUint16 = VUint 0"
| "zeroPrim KUint32 = VUint 0"
| "zeroPrim KUint64 = VUint 0"
| "zeroPrim KUintptr = VUint 0"
| "zeroPrim KFloat32 = VFloat 0"
| "zeroPrim KFloat64 = VFloat 0"
| "zeroPrim KString = VString []"
| "zeroPrim KOther = VOther 0"

text \<open>\<^verbatim>\<open>reflect.Zero\<close>: the zero value of a type.\<close>

fun zero :: "gtype \<Rightarrow> gval" and zeroFields :: "sfield list \<Rightarrow> gval list" where
  "zero (TPrim n s k) = zeroPrim k"
| "zero (TPtr n s e) = VPtr None"
| "zero (TSlice n s e) = VSlice []"
| "zero (TStruct n s fs) = VStruct (zeroFields fs)"
| "zeroFields [] = []"
| "zeroFields (StructField nm pk tg ty # fs) = zero ty # zeroFields fs"

text \<open>
  A \<^verbatim>\<open>reflect.Value\<close> that stands for a location: its type, the two flags that
  decide \<^verbatim>\<open>CanAddr\<close>, \<^verbatim>\<open>CanSet\<close> and \<^verbatim>\<open>CanInterface\<close>, and where the location is
  in the record: the steps from the root, into a field, through a pointer or
  to an element of a slice.
\<close>

datatype step = Fld nat | Deref | Idx nat

record rvalue =
  vtype :: gtype
  flagAddr :: bool
  flagRO :: bool
  loc :: "step list"

definition CanAddr :: "rvalue \<Rightarrow> bool" where
  "CanAddr v = flagAddr v"

definition CanSet :: "rvalue \<Rightarrow> bool" where
  "CanSet v = (flagAddr v \<and> \<not> flagRO v)"

definition CanInterface :: "rvalue \<Rightarrow> bool" where
  "CanInterface v = (\<not> flagRO v)"

text \<open>The zero \<^verbatim>\<open>reflect.Value\<close> and the zero \<^verbatim>\<open>reflect.StructField\<close>.\<close>

definition zeroValue :: rvalue where
  "zeroValue = \<lparr>vtype = TPrim [] [] KOther, flagAddr = False, flagRO = False, loc = []\<rparr>"

definition zeroStructField :: sfield where
  "zeroStructField = StructField [] [] [] (TPrim [] [] KOther)"

text \<open>The binding descriptor.\<close>

record field =
  key :: string
  decrypt :: bool
  json :: bool
  "value" :: rvalue
  field :: sfield

text \<open>
  The errors of the package, and \<open>ErrorString\<close> for \<^verbatim>\<open>errors.New\<close>,
  \<^verbatim>\<open>fmt.Errorf\<close> and the errors of collaborators, by message.
\<close>

datatype error =
    InvalidTypeError "gtype option"
  | TagParseError string string
  | ConvertTypeError string string string
  | ErrorString string

fun Error :: "error \<Rightarrow> string" where
  "Error (InvalidTypeError None) = ''nil type''"
| "Error (InvalidTypeError (Some t)) =
     (if \<not> isPtr t then ''non-pointer Load('' @ typeString t @ '')''
      else ''invalid type '' @ typeString t)"
| "Error (TagParseError tg fld) = ''failed to parse tag ['' @ tg @ ''] for field '' @ fld"
| "Error (ConvertTypeError fld ty val) =
     (if fld \<noteq> [] \<or> ty \<noteq> []
      then ''failed to convert '' @ [CHR 0x27] @ val @ [CHR 0x27] @ '' to '' @ ty @ '' for field '' @ fld
      else ''failed to convert '' @ [CHR 0x27] @ val @ [CHR 0x27])"
| "Error (ErrorString m) = m"

section \<open>The tag parser\<close>

text \<open>
  Strings are byte strings in UTF-8.  \<^verbatim>\<open>strings.TrimSpace\<close> is
  \<^verbatim>\<open>TrimFunc(s, unicode.IsSpace)\<close>: it removes from both ends the runes that
  are white space in Unicode.  \<open>spaceRunes\<close> lists their encodings: tab, line
  feed, vertical tab, form feed, carriage return, space, U+0085, U+00A0,
  U+1680, U+2000 to U+200A, U+2028, U+2029, U+202F, U+205F and U+3000.  A
  rune at the front is white space exactly when one of these encodings is a
  prefix of the text, and a rune at the end exactly when one of them is a
  suffix (the decoder accepts shortest encodings only, and a byte sequence
  that is not valid reads as a rune that is not white space).
\<close>

definition spaceRunes :: "string list" where
  "spaceRunes =
     [ [CHR 0x09], [CHR 0x0A], [CHR 0x0B], [CHR 0x0C], [CHR 0x0D], [CHR 0x20],
       [CHR 0xC2, CHR 0x85], [CHR 0xC2, CHR 0xA0],
       [CHR 0xE1, CHR 0x9A, CHR 0x80],
       [CHR 0xE2, CHR 0x80, CHR 0x80], [CHR 0xE2, CHR 0x80, CHR 0x81],
       [CHR 0xE2, CHR 0x80, CHR 0x82], [CHR 0xE2, CHR 0x80, CHR 0x83],
       [CHR 0xE2, CHR 0x80, CHR 0x84], [CHR 0xE2, CHR 0x80, CHR 0x85],
       [CHR 0xE2, CHR 0x80, CHR 0x86], [CHR 0xE2, CHR 0x80, CHR 0x87],
       [CHR 0xE2, CHR 0x80, CHR 0x88], [CHR 0xE2, CHR 0x80, CHR 0x89],
       [CHR 0xE2, CHR 0x80, CHR 0x8A],
       [CHR 0xE2, CHR 0x80, CHR 0xA8], [CHR 0xE2, CHR 0x80, CHR 0xA9],
       [CHR 0xE2, CHR 0x80, CHR 0xAF],
       [CHR 0xE2, CHR 0x81, CHR 0x9F],
       [CHR 0xE3, CHR 0x80, CHR 0x80] ]"

text \<open>
  The width of the rune at the front of \<open>s\<close> when it is one of the encodings
  \<open>es\<close>, and the removal of such runes from the front, rune by rune
  (\<^verbatim>\<open>TrimLeftFunc\<close>).  The removal from the end (\<^verbatim>\<open>TrimRightFunc\<close>) is the same
  on the reversed text with the reversed encodings.
\<close>

fun leadingRune :: "string list \<Rightarrow> string \<Rightarrow> nat option" where
  "leadingRune [] s = None"
| "leadingRune (e # es) s =
     (if e \<noteq> [] \<and> take (length e) s = e then Some (length e) else leadingRune es s)"

function trimLeftRunes :: "string list \<Rightarrow> string \<Rightarrow> string" where
  "trimLeftRunes es s =
     (case leadingRune es s of
        None \<Rightarrow> s
      | Some n \<Rightarrow> trimLeftRunes es (drop n s))"
  by pat_completeness auto
termination
proof (relation "measure (\<lambda>(es, s). length s)")
  show "wf (measure (\<lambda>(es, s). length s))" by simp
next
  fix es :: "string list" and s :: string and n
  assume a: "leadingRune es s = Some n"
  have "leadingRune es s = Some n \<Longrightarrow> 0 < n \<and> n \<le> length s"
  proof (induction es)
    case Nil
    then show ?case by simp
  next
    case (Cons e es)
    show ?case
    proof (cases "e \<noteq> [] \<and> take (length e) s = e")
      case True
      then have "n = length e" using Cons.prems by simp
      moreover have "length (take (length e) s) = length e"
        using True by simp
      then have "length e \<le> length s"
        by (simp add: min_def split: if_splits)
      ultimately show ?thesis using True by simp
    next
      case False
      then show ?thesis using Cons by auto
    qed
  qed
  with a have "0 < n \<and> n \<le> length s" by simp
  then have "length (drop n s) < length s" by (simp, arith)
  then show "((es, drop n s), (es, s)) \<in> measure (\<lambda>(es, s). length s)"
    by simp
qed

declare trimLeftRunes.simps [simp del]

definition TrimSpace :: "string \<Rightarrow> string" where
  "TrimSpace s =
     rev (trimLeftRunes (map rev spaceRunes) (rev (trimLeftRunes spaceRunes s)))"

text \<open>
  \<^verbatim>\<open>strings.Split(s, sep)\<close> for a separator of one byte: the pieces between the
  separators, one more than there are separators, so never an empty list.
\<close>

fun Split :: "string \<Rightarrow> char \<Rightarrow> string list" where
  "Split [] sep = [ [] ]"
| "Split (c # cs) sep =
     (if c = sep then [] # Split cs sep
      else (case Split cs sep of
              w # ws \<Rightarrow> (c # w) # ws
            | [] \<Rightarrow> [ [c] ]))"

definition newField :: "string \<Rightarrow> bool \<Rightarrow> field" where
  "newField k d =
     \<lparr>key = TrimSpace k, decrypt = d, json = False,
      value = zeroValue, field = zeroStructField\<rparr>"

text \<open>
  The options after the key: \<^verbatim>\<open>decrypt\<close> and \<^verbatim>\<open>json\<close> set their flag, anything else
  is ignored.
\<close>

definition applyOption :: "field \<Rightarrow> string \<Rightarrow> field" where
  "applyOption fld option =
     (if TrimSpace option = ''decrypt'' then fld\<lparr>decrypt := True\<rparr>
      else if TrimSpace option = ''json'' then fld\<lparr>json := True\<rparr>
      else fld)"

text \<open>
  \<^verbatim>\<open>tag\<close>.  The template engine is the collaborator \<open>tpl\<close>: \<open>tpl k data\<close> is
  \<^verbatim>\<open>template.New(k).Parse(k)\<close> followed by \<^verbatim>\<open>Execute(b, data)\<close>, \<open>Some\<close> of the
  rendered text when both succeed and \<open>None\<close> when either fails (the key is
  then left as it is).  \<open>os\<close> is the source's \<^verbatim>\<open>o\<close>, \<open>hd os\<close> is \<^verbatim>\<open>o[0]\<close> and \<open>tl os\<close> is \<^verbatim>\<open>o[1:]\<close>; \<open>Split\<close> never
  returns an empty list.  The result is the pair \<^verbatim>\<open>(*field, error)\<close>: \<open>Inl\<close> the
  error, \<open>Inr None\<close> for \<^verbatim>\<open>(nil, nil)\<close>.
\<close>

definition tag :: "(string \<Rightarrow> 'd \<Rightarrow> string option) \<Rightarrow> sfield \<Rightarrow> 'd \<Rightarrow> error + field option" where
  "tag tpl f data =
     (let t = ssmTag f in
      if t = [] \<or> t = ''-'' then Inr None
      else
        let os = Split t (CHR '','');
            fld = newField (TrimSpace (hd os)) False
        in if key fld = [] then Inl (TagParseError t (Name f))
           else
             let fld = (case tpl (key fld) data of
                          Some b \<Rightarrow> fld\<lparr>key := b\<rparr>
                        | None \<Rightarrow> fld)
             in Inr (Some (foldl applyOption fld (tl os))))"

text \<open>
  A template engine that agrees with \<^verbatim>\<open>text/template\<close> on the annotations of
  the repository's tests: the key \<^verbatim>\<open>/{{.Env}}/environment\<close> of the test
  \<^verbatim>\<open>with parameter\<close> renders with the value of the field \<open>Env\<close> of the data (and
  fails when the data has no such field); the other keys contain no action
  and render to themselves.  The data is a list of field names and values.
\<close>

definition testTemplate :: "string \<Rightarrow> (string \<times> string) list \<Rightarrow> string option" where
  "testTemplate k data =
     (if k = ''/{{.Env}}/environment''
      then (case map_of data ''Env'' of
              Some v \<Rightarrow> Some (''/'' @ v @ ''/environment'')
            | None \<Rightarrow> None)
      else Some k)"

section \<open>Text to value: the standard library's parsers\<close>

text \<open>
  The parsers of \<^verbatim>\<open>strconv\<close> and \<^verbatim>\<open>time\<close> that \<^verbatim>\<open>set\<close> calls, with the one
  thing \<^verbatim>\<open>set\<close> asks of them: the value, or \<open>None\<close> when the parser returns an
  error.
\<close>

definition isDigit :: "char \<Rightarrow> bool" where
  "isDigit c = (48 \<le> (of_char c :: nat) \<and> (of_char c :: nat) \<le> 57)"

definition digit :: "char \<Rightarrow> nat" where
  "digit c = of_char c - 48"

text \<open>\<^verbatim>\<open>strconv.ParseBool\<close>.\<close>

definition ParseBool :: "string \<Rightarrow> bool option" where
  "ParseBool s =
     (if s \<in> set [''1'', ''t'', ''T'', ''TRUE'', ''true'', ''True''] then Some True
      else if s \<in> set [''0'', ''f'', ''F'', ''FALSE'', ''false'', ''False''] then Some False
      else None)"

text \<open>
  \<^verbatim>\<open>strconv.ParseUint(s, 10, 64)\<close>: decimal digits only, at least one, and a
  value below \<open>2^64\<close>.
\<close>

fun ParseUintLoop :: "string \<Rightarrow> nat \<Rightarrow> nat option" where
  "ParseUintLoop [] n = Some n"
| "ParseUintLoop (c # cs) n =
     (if \<not> isDigit c then None
      else let n1 = n * 10 + digit c
           in if n1 > 2 ^ 64 - 1 then None else ParseUintLoop cs n1)"

definition ParseUint :: "string \<Rightarrow> nat option" where
  "ParseUint s = (if s = [] then None else ParseUintLoop s 0)"

text \<open>
  \<^verbatim>\<open>strconv.ParseInt(s, 10, 64)\<close>: an optional sign, then \<^verbatim>\<open>ParseUint\<close>, then the
  range of \<^verbatim>\<open>int64\<close>.
\<close>

definition ParseInt :: "string \<Rightarrow> int option" where
  "ParseInt s =
     (if s = [] then None
      else
        let neg = (hd s = CHR ''-'');
            s1 = (if hd s = CHR ''+'' \<or> hd s = CHR ''-'' then tl s else s)
        in case ParseUint s1 of
             None \<Rightarrow> None
           | Some un \<Rightarrow>
               if \<not> neg \<and> un \<ge> 2 ^ 63 then None
               else if neg \<and> un > 2 ^ 63 then None
               else Some (if neg then - int un else int un))"

text \<open>
  The width of an integer kind in bits, on a 64-bit platform, and
  \<^verbatim>\<open>OverflowInt\<close> and \<^verbatim>\<open>OverflowUint\<close> of \<^verbatim>\<open>reflect.Value\<close>.
\<close>

fun bitSize :: "pkind \<Rightarrow> nat" where
  "bitSize KInt8 = 8"
| "bitSize KInt16 = 16"
| "bitSize KInt32 = 32"
| "bitSize KUint8 = 8"
| "bitSize KUint16 = 16"
| "bitSize KUint32 = 32"
| "bitSize KFloat32 = 32"
| "bitSize k = 64"

definition OverflowInt :: "pkind \<Rightarrow> int \<Rightarrow> bool" where
  "OverflowInt k n = (n < - (2 ^ (bitSize k - 1)) \<or> n \<ge> 2 ^ (bitSize k - 1))"

definition OverflowUint :: "pkind \<Rightarrow> nat \<Rightarrow> bool" where
  "OverflowUint k n = (n \<ge> 2 ^ bitSize k)"

text \<open>
  \<^verbatim>\<open>time.ParseDuration\<close>, as in Go 1.12, the version the repository builds
  with: an optional sign, then one or more terms, each an integer part, an
  optional fraction and a unit.  The values are \<^verbatim>\<open>int64\<close>; where the source
  tests a wrapped sum for being negative, the model tests the exact sum
  against \<open>2^63 - 1\<close>.  The nanoseconds of a fraction are computed in floating
  point, \<^verbatim>\<open>int64(float64(f) * (float64(unit) / scale))\<close>; that one expression
  is the parameter \<open>frac\<close>.
\<close>

fun leadingInt :: "string \<Rightarrow> nat \<Rightarrow> (nat \<times> string) option" where
  "leadingInt [] x = Some (x, [])"
| "leadingInt (c # cs) x =
     (if \<not> isDigit c then Some (x, c # cs)
      else if x > (2 ^ 63 - 1) div 10 then None
      else let x1 = x * 10 + digit c
           in if x1 > 2 ^ 63 - 1 then None else leadingInt cs x1)"

fun leadingFraction :: "string \<Rightarrow> nat \<Rightarrow> nat \<Rightarrow> bool \<Rightarrow> nat \<times> nat \<times> string" where
  "leadingFraction [] x scale overflow = (x, scale, [])"
| "leadingFraction (c # cs) x scale overflow =
     (if \<not> isDigit c then (x, scale, c # cs)
      else if overflow then leadingFraction cs x scale True
      else if x > (2 ^ 63 - 1) div 10 then leadingFraction cs x scale True
      else let y = x * 10 + digit c
           in if y > 2 ^ 63 - 1 then leadingFraction cs x scale True
              else leadingFraction cs y (scale * 10) False)"

definition unitMap :: "string \<Rightarrow> nat option" where
  "unitMap u =
     (if u = ''ns'' then Some 1
      else if u = ''us'' then Some 1000
      else if u = [CHR 0xC2, CHR 0xB5, CHR ''s''] then Some 1000
      else if u = [CHR 0xCE, CHR 0xBC, CHR ''s''] then Some 1000
      else if u = ''ms'' then Some 1000000
      else if u = ''s'' then Some 1000000000
      else if u = ''m'' then Some 60000000000
      else if u = ''h'' then Some 3600000000000
      else None)"

definition isNumberByte :: "char \<Rightarrow> bool" where
  "isNumberByte c = (c = CHR ''.'' \<or> isDigit c)"

text \<open>
  One term of a duration, from a text that is not empty: its nanoseconds and
  the rest of the text.
\<close>

definition durationTerm :: "(nat \<Rightarrow> nat \<Rightarrow> nat \<Rightarrow> nat) \<Rightarrow> string \<Rightarrow> (nat \<times> string) option" where
  "durationTerm frac s =
     (if \<not> isNumberByte (hd s) then None
      else case leadingInt s 0 of
        None \<Rightarrow> None
      | Some (v, s1) \<Rightarrow>
          let pre = (length s \<noteq> length s1);
              (f, scale, s2) =
                 (if s1 \<noteq> [] \<and> hd s1 = CHR ''.''
                  then leadingFraction (tl s1) 0 1 False
                  else (0, 1, s1));
              post = (s1 \<noteq> [] \<and> hd s1 = CHR ''.'' \<and> length (tl s1) \<noteq> length s2)
          in if \<not> pre \<and> \<not> post then None
             else
               let u = takeWhile (\<lambda>c. \<not> isNumberByte c) s2;
                   s3 = dropWhile (\<lambda>c. \<not> isNumberByte c) s2
               in if u = [] then None
                  else case unitMap u of
                    None \<Rightarrow> None
                  | Some unit \<Rightarrow>
                      if v > (2 ^ 63 - 1) div unit then None
                      else
                        let v1 = v * unit
                        in if f > 0
                           then (let v2 = v1 + frac f unit scale
                                 in if v2 > 2 ^ 63 - 1 then None else Some (v2, s3))
                           else Some (v1, s3))"

text \<open>
  The loop over the terms of a duration.  Every term consumes at least its
  unit, which is what makes the loop end.
\<close>

function durationLoop :: "(nat \<Rightarrow> nat \<Rightarrow> nat \<Rightarrow> nat) \<Rightarrow> string \<Rightarrow> nat \<Rightarrow> nat option" where
  "durationLoop frac s d =
     (if s = [] then Some d
      else case durationTerm frac s of
        None \<Rightarrow> None
      | Some (v, rest) \<Rightarrow>
          let d1 = d + v
          in if d1 > 2 ^ 63 - 1 then None else durationLoop frac rest d1)"
  by pat_completeness auto
termination
proof (relation "measure (\<lambda>(frac, s, d). length s)")
  show "wf (measure (\<lambda>(frac, s, d). length s))" by simp
next
  fix frac :: "nat \<Rightarrow> nat \<Rightarrow> nat \<Rightarrow> nat" and s :: string and d x2 v rest d1
  assume ne: "s \<noteq> []" and t: "durationTerm frac s = Some x2" and x2: "(v, rest) = x2"
  have li: "\<And>x y r. leadingInt t x = Some (y, r) \<Longrightarrow> length r \<le> length t" for t
  proof (induction t)
    case Nil then show ?case by simp
  next
    case (Cons c cs)
    show ?case
    proof (cases "isDigit c")
      case False then show ?thesis using Cons.prems by auto
    next
      case True
      then have "leadingInt cs (x * 10 + digit c) = Some (y, r)"
        using Cons.prems by (simp add: Let_def split: if_splits)
      then have "length r \<le> length cs" by (rule Cons.IH)
      then show ?thesis by simp
    qed
  qed
  have lf: "\<And>x sc ov. length (snd (snd (leadingFraction t x sc ov))) \<le> length t" for t
  proof (induction t)
    case Nil show ?case by simp
  next
    case (Cons c cs)
    show ?case using Cons.IH [of x sc True] Cons.IH [of "x * 10 + digit c" "sc * 10" False]
      by (auto simp: Let_def le_SucI)
  qed
  have "length rest < length s"
  proof -
    from t x2 have t': "durationTerm frac s = Some (v, rest)" by simp
    obtain v0 s1 where l: "leadingInt s 0 = Some (v0, s1)"
      using t' by (auto simp: durationTerm_def split: if_splits option.splits)
    have s1: "length s1 \<le> length s" using li [OF l] .
    define fr where "fr = (if s1 \<noteq> [] \<and> hd s1 = CHR ''.''
                  then leadingFraction (tl s1) 0 1 False
                  else (0, 1, s1))"
    obtain f scale s2 where fr_eq: "fr = (f, scale, s2)" by (cases fr)
    have s2: "length s2 \<le> length s1"
    proof (cases "s1 \<noteq> [] \<and> hd s1 = CHR ''.''")
      case True
      then have "s2 = snd (snd (leadingFraction (tl s1) 0 1 False))"
        using fr_eq by (simp add: fr_def)
      then have "length s2 \<le> length (tl s1)" using lf [of "tl s1" 0 1 False] by simp
      then show ?thesis by simp
    next
      case False
      then show ?thesis using fr_eq by (auto simp: fr_def)
    qed
    define u where "u = takeWhile (\<lambda>c. \<not> isNumberByte c) s2"
    have rest: "rest = dropWhile (\<lambda>c. \<not> isNumberByte c) s2" and u: "u \<noteq> []"
      using t' l fr_eq
      by (auto simp: durationTerm_def Let_def fr_def [symmetric] u_def
               split: if_splits option.splits)
    have "length s2 = length u + length rest"
      unfolding u_def rest by (metis length_append takeWhile_dropWhile_id)
    then have "length rest < length s2" using u by simp
    then show ?thesis using s1 s2 by simp
  qed
  then show "((frac, rest, d1), (frac, s, d)) \<in> measure (\<lambda>(frac, s, d). length s)"
    by simp
qed

declare durationLoop.simps [simp del]

definition ParseDuration :: "(nat \<Rightarrow> nat \<Rightarrow> nat \<Rightarrow> nat) \<Rightarrow> string \<Rightarrow> int option" where
  "ParseDuration frac s =
     (let neg = (s \<noteq> [] \<and> hd s = CHR ''-'');
          s1 = (if s \<noteq> [] \<and> (hd s = CHR ''-'' \<or> hd s = CHR ''+'') then tl s else s)
      in if s1 = ''0'' then Some 0
         else if s1 = [] then None
         else case durationLoop frac s1 0 of
                None \<Rightarrow> None
              | Some d \<Rightarrow> Some (if neg then - int d else int d))"

section \<open>The value converter\<close>

text \<open>
  What \<^verbatim>\<open>set\<close> needs from outside the package: the custom decoders of the
  record's types, the JSON decoder and the floating-point operations.

  \<^item> \<open>unmarshalerOf t\<close> is the \<^verbatim>\<open>UnmarshalParameter\<close> method in the method set
    of the type \<open>t\<close>, if there is one.  The method is called on a receiver of
    type \<open>t\<close> with the text; the model gives it the receiver and gets back
    the error and the receiver after the call (for a pointer receiver, with
    what the method has stored in the target).
  \<^item> \<open>jsonUnmarshal t s p\<close> is \<^verbatim>\<open>json.Unmarshal([]byte(s), p)\<close> for a pointer
    \<open>p\<close> of type \<open>t\<close>: the error and the pointer after the call.
  \<^item> \<open>ParseFloat s bits\<close> is \<^verbatim>\<open>strconv.ParseFloat\<close>, \<open>None\<close> for an error;
    \<open>OverflowFloat\<close> is \<^verbatim>\<open>reflect.Value.OverflowFloat\<close> for a field of that
    kind; \<open>fracNanos\<close> is the floating-point expression of
    \<^verbatim>\<open>time.ParseDuration\<close>.
\<close>

record lib =
  unmarshalerOf :: "gtype \<Rightarrow> (string \<Rightarrow> gval \<Rightarrow> error option \<times> gval) option"
  jsonUnmarshal :: "gtype \<Rightarrow> string \<Rightarrow> gval \<Rightarrow> error option \<times> gval"
  ParseFloat :: "string \<Rightarrow> nat \<Rightarrow> nat option"
  OverflowFloat :: "pkind \<Rightarrow> nat \<Rightarrow> bool"
  fracNanos :: "nat \<Rightarrow> nat \<Rightarrow> nat \<Rightarrow> nat"

text \<open>
  The handles \<^verbatim>\<open>set\<close> makes: \<^verbatim>\<open>reflect.New(e).Elem()\<close>, \<^verbatim>\<open>v.Index(i)\<close> and
  \<^verbatim>\<open>v.Addr()\<close>, with the flags \<^verbatim>\<open>reflect\<close> gives them.  The new target is
  placed where it ends up: behind the pointer at \<open>l\<close>.
\<close>

definition newElem :: "gtype \<Rightarrow> step list \<Rightarrow> rvalue" where
  "newElem e l = \<lparr>vtype = e, flagAddr = True, flagRO = False, loc = l @ [Deref]\<rparr>"

definition Index :: "rvalue \<Rightarrow> gtype \<Rightarrow> nat \<Rightarrow> rvalue" where
  "Index v e i = \<lparr>vtype = e, flagAddr = True, flagRO = flagRO v, loc = loc v @ [Idx i]\<rparr>"

definition Addr :: "rvalue \<Rightarrow> rvalue" where
  "Addr v = \<lparr>vtype = ptrTo (vtype v), flagAddr = False, flagRO = flagRO v, loc = loc v\<rparr>"

text \<open>The descriptor \<^verbatim>\<open>&field{value: x}\<close> of the recursive calls.\<close>

definition valueField :: "rvalue \<Rightarrow> field" where
  "valueField x =
     \<lparr>key = [], decrypt = False, json = False, value = x, field = zeroStructField\<rparr>"

text \<open>
  A call through the address of the location: the receiver is a pointer to
  the content, and the content afterwards is what the pointer then points to.
\<close>

definition throughAddr ::
  "(string \<Rightarrow> gval \<Rightarrow> error option \<times> gval) \<Rightarrow> string \<Rightarrow> gval \<Rightarrow> error option \<times> gval" where
  "throughAddr u s cur =
     (case u s (VPtr (Some cur)) of
        (err, VPtr (Some x)) \<Rightarrow> (err, x)
      | (err, p) \<Rightarrow> (err, cur))"

text \<open>
  \<^verbatim>\<open>unmarshaler\<close>: the custom decoder of the location, if its type (or, for an
  addressable location of a named type that is not a pointer, the pointer to
  its type) has one.  The result acts on the content of the location.
\<close>

definition unmarshaler :: "lib \<Rightarrow> rvalue \<Rightarrow> (string \<Rightarrow> gval \<Rightarrow> error option \<times> gval) option" where
  "unmarshaler lib v =
     (let addressed = (\<not> isPtr (vtype v) \<and> typeName (vtype v) \<noteq> [] \<and> CanAddr v);
          v1 = (if addressed then Addr v else v)
      in if CanInterface v1
         then (case unmarshalerOf lib (vtype v1) of
                 Some u \<Rightarrow> Some (if addressed then throughAddr u else u)
               | None \<Rightarrow> None)
         else None)"

text \<open>\<^verbatim>\<open>setJSON\<close>, on the content \<open>cur\<close> of the location.\<close>

definition setJSON :: "lib \<Rightarrow> field \<Rightarrow> gval \<Rightarrow> string \<Rightarrow> error option \<times> gval" where
  "setJSON lib f cur s =
     (let v = value f in
      if \<not> isPtr (vtype v) \<and> \<not> CanAddr v
      then (Some (ErrorString (typeString (vtype v) @ '' is not addressable'')), cur)
      else
        let addressed = (\<not> isPtr (vtype v));
            v1 = (if addressed then Addr v else v)
        in if \<not> CanInterface v1
           then (Some (ErrorString (typeString (vtype v1) @ '' is not interfaceable'')), cur)
           else
             let (err, cur1) =
                   (if addressed then throughAddr (jsonUnmarshal lib (vtype v1)) s cur
                    else jsonUnmarshal lib (vtype v1) s cur)
             in if err \<noteq> None
                then (Some (ErrorString (''json unmarshal error for field '' @ [CHR 0x27]
                                          @ Name (field f) @ [CHR 0x27])), cur1)
                else (None, cur1))"

text \<open>
  The cases of the \<^verbatim>\<open>switch\<close> for the kinds without elements; \<open>ts\<close> is
  \<^verbatim>\<open>v.Type().String()\<close>.  A kind with no case leaves the location as it is.
\<close>

definition setPrim :: "lib \<Rightarrow> pkind \<Rightarrow> string \<Rightarrow> gval \<Rightarrow> string \<Rightarrow> error option \<times> gval" where
  "setPrim lib k ts cur s =
     (if k = KString then (None, VString s)
      else if k = KBool then
        (case ParseBool s of
           None \<Rightarrow> (Some (ConvertTypeError [] ts s), cur)
         | Some n \<Rightarrow> (None, VBool n))
      else if k \<in> set [KInt, KInt8, KInt16, KInt32, KInt64] then
        (case ParseInt s of
           None \<Rightarrow> (Some (ConvertTypeError [] ts s), cur)
         | Some n \<Rightarrow>
             if OverflowInt k n then (Some (ConvertTypeError [] ts s), cur)
             else (None, VInt n))
      else if k \<in> set [KUint, KUint8, KUint16, KUint32, KUint64, KUintptr] then
        (case ParseUint s of
           None \<Rightarrow> (Some (ConvertTypeError [] ts s), cur)
         | Some n \<Rightarrow>
             if OverflowUint k n then (Some (ConvertTypeError [] ts s), cur)
             else (None, VUint n))
      else if k \<in> set [KFloat32, KFloat64] then
        (case ParseFloat lib s (bitSize k) of
           None \<Rightarrow> (Some (ConvertTypeError [] ts s), cur)
         | Some n \<Rightarrow>
             if OverflowFloat lib k n then (Some (ConvertTypeError [] ts s), cur)
             else (None, VFloat n))
      else (None, cur))"

text \<open>
  \<^verbatim>\<open>set\<close>, here \<open>set_value\<close>.  It takes the descriptor, the content of its location and the text,
  and returns the error and the content afterwards.  A type is assignable to
  \<^verbatim>\<open>time.Duration\<close> exactly when it is that type.  In the pointer and the
  slice case the result of the recursive call is dropped, as in the source:
  only the content it leaves behind is used.
\<close>

function set_value :: "lib \<Rightarrow> field \<Rightarrow> gval \<Rightarrow> string \<Rightarrow> error option \<times> gval" where
  "set_value lib f cur s =
     (let v = value f in
      if \<not> CanSet v
      then (Some (ErrorString (typeString (vtype v) @ '' cannot be set'')), cur)
      else case unmarshaler lib v of
        Some u \<Rightarrow>
          if json f
          then (Some (ErrorString
                  (''cannot use '' @ [CHR 0x27] @ ''json'' @ [CHR 0x27]
                   @ '' option on a type with a custom unmarshaller: ''
                   @ Name (field f) @ '' '' @ typeString (Type (field f)))), cur)
          else u s cur
      | None \<Rightarrow>
          if json f then setJSON lib f cur s
          else case (if vtype v = durationType then ParseDuration (fracNanos lib) s else None) of
            Some p \<Rightarrow> (None, VInt p)
          | None \<Rightarrow>
              (case vtype v of
                 TPtr n ts e \<Rightarrow>
                   (let new = snd (set_value lib (valueField (newElem e (loc v))) (zero e) s)
                    in (None, VPtr (Some new)))
               | TSlice n ts e \<Rightarrow>
                   (let l = Split s (CHR '','')
                    in (None,
                        VSlice (map (\<lambda>(i, w). snd (set_value lib (valueField (Index v e i)) (zero e) w))
                                  (enumerate 0 l))))
               | TStruct n ts fs \<Rightarrow> (None, cur)
               | TPrim n ts k \<Rightarrow> setPrim lib k ts cur s))"
  by pat_completeness auto
termination
  by (relation "measure (\<lambda>(lib, f, cur, s). size (vtype (value f)))")
     (auto simp: valueField_def newElem_def Index_def)

declare set_value.simps [simp del]

text \<open>
  The dispatch order of \<^verbatim>\<open>set\<close>: the location must be settable, a custom
  decoder comes first, the \<^verbatim>\<open>json\<close> option second.  The special case for
  durations and the \<^verbatim>\<open>switch\<close> on the kind are reached by the descriptors for
  which none of the earlier steps applies.
\<close>

definition reachesSwitch :: "lib \<Rightarrow> field \<Rightarrow> bool" where
  "reachesSwitch lib f =
     (CanSet (value f) \<and> unmarshaler lib (value f) = None \<and> \<not> json f)"

section \<open>The types and collaborators of the repository's tests\<close>

definition intType :: gtype where
  "intType = TPrim ''int'' ''int'' KInt"

definition stringType :: gtype where
  "stringType = TPrim ''string'' ''string'' KString"

text \<open>
  The test file's \<^verbatim>\<open>type str string\<close>, whose pointer has the method
  \<^verbatim>\<open>UnmarshalParameter\<close> that stores \<^verbatim>\<open>"cs-" + s\<close>.
\<close>

definition strType :: gtype where
  "strType = TPrim ''str'' ''figgy.str'' KString"

definition strUnmarshalParameter :: "string \<Rightarrow> gval \<Rightarrow> error option \<times> gval" where
  "strUnmarshalParameter s c = (None, VPtr (Some (VString (''cs-'' @ s))))"

text \<open>
  The collaborators as the tests have them: \<^verbatim>\<open>*str\<close> is the only type with a
  custom decoder.  Of \<^verbatim>\<open>encoding/json\<close> the library keeps what is evaluated
  below: \<^verbatim>\<open>json.Unmarshal\<close> into a \<open>nil\<close> pointer is an error
  (\<^verbatim>\<open>InvalidUnmarshalError\<close>), and so is the text \<^verbatim>\<open>invalid\<close> of the test's
  \<^verbatim>\<open>badjson\<close> parameter; decoded values are not modelled.  No floating-point
  text is evaluated.
\<close>

definition testLib :: lib where
  "testLib =
     \<lparr>unmarshalerOf = (\<lambda>t. if t = ptrTo strType then Some strUnmarshalParameter else None),
      jsonUnmarshal = (\<lambda>t s p.
         case p of
           VPtr (Some x) \<Rightarrow>
             (if s = ''invalid'' then (Some (ErrorString ''invalid character''), p) else (None, p))
         | _ \<Rightarrow> (Some (ErrorString ''json: Unmarshal(nil)''), p)),
      ParseFloat = (\<lambda>s bits. None),
      OverflowFloat = (\<lambda>k n. False),
      fracNanos = (\<lambda>f unit scale. 0)\<rparr>"

text \<open>
  A settable, addressable location of a type, as \<^verbatim>\<open>walk\<close> hands them to
  \<^verbatim>\<open>set\<close>, and a descriptor bound to it.
\<close>

definition location :: "gtype \<Rightarrow> step list \<Rightarrow> rvalue" where
  "location t l = \<lparr>vtype = t, flagAddr = True, flagRO = False, loc = l\<rparr>"

definition bound :: "string \<Rightarrow> bool \<Rightarrow> bool \<Rightarrow> string \<Rightarrow> gtype \<Rightarrow> gtype \<Rightarrow> step list \<Rightarrow> field" where
  "bound k d j name declared t l =
     \<lparr>key = k, decrypt = d, json = j, value = location t l,
      field = StructField name [] k declared\<rparr>"

text \<open>
  Three descriptors: the test's field \<^verbatim>\<open>Slice []int\<close> bound to \<^verbatim>\<open>sliceint\<close>, a
  field \<^verbatim>\<open>PP **int\<close> whose location, after \<^verbatim>\<open>walk\<close> has allocated the outer
  pointer, is the inner \<^verbatim>\<open>*int\<close>, and the same field with the \<^verbatim>\<open>json\<close> option.
\<close>

definition intSliceType :: gtype where
  "intSliceType = TSlice [] ''[]int'' intType"

definition sliceField :: field where
  "sliceField = bound ''sliceint'' False False ''Slice'' intSliceType intSliceType [Fld 0]"

definition pointerField :: field where
  "pointerField = bound ''pp'' False False ''PP'' (ptrTo (ptrTo intType)) (ptrTo intType) [Fld 0, Deref]"

definition jsonPointerField :: field where
  "jsonPointerField = bound ''pp'' False True ''PP'' (ptrTo (ptrTo intType)) (ptrTo intType) [Fld 0, Deref]"

text \<open>
  A stricter decoder for \<^verbatim>\<open>*str\<close>, of the kind a caller may write: it stores the
  text and then rejects it.  \<^verbatim>\<open>type P *str\<close> is a named pointer type; it has no
  methods of its own, so a location of type \<open>P\<close> reaches the pointer case of
  \<^verbatim>\<open>set\<close> while its target has the decoder.
\<close>

definition storeThenReject :: "string \<Rightarrow> gval \<Rightarrow> error option \<times> gval" where
  "storeThenReject s c = (Some (ErrorString ''rejected''), VPtr (Some (VString s)))"

definition strictLib :: lib where
  "strictLib =
     testLib\<lparr>unmarshalerOf :=
       (\<lambda>t. if t = ptrTo strType then Some storeThenReject else None)\<rparr>"

definition namedPointerField :: field where
  "namedPointerField =
     valueField (location (TPtr ''P'' ''figgy.P'' strType) [Fld 0, Idx 0])"

section \<open>The field walker\<close>

text \<open>
  The handles \<^verbatim>\<open>walk\<close> makes: \<^verbatim>\<open>v.Field(i)\<close>, read-only when the field is not
  exported, and \<^verbatim>\<open>reflect.Indirect(fv)\<close> for a pointer \<open>fv\<close>.
\<close>

definition Field :: "rvalue \<Rightarrow> sfield \<Rightarrow> nat \<Rightarrow> rvalue" where
  "Field v ft i =
     \<lparr>vtype = Type ft, flagAddr = flagAddr v,
      flagRO = (flagRO v \<or> PkgPath ft \<noteq> []), loc = loc v @ [Fld i]\<rparr>"

fun elemType :: "gtype \<Rightarrow> gtype" where
  "elemType (TPtr n s e) = e"
| "elemType (TSlice n s e) = e"
| "elemType t = t"

definition Indirect :: "rvalue \<Rightarrow> rvalue" where
  "Indirect fv =
     \<lparr>vtype = elemType (vtype fv), flagAddr = True, flagRO = flagRO fv,
      loc = loc fv @ [Deref]\<rparr>"

text \<open>
  \<^verbatim>\<open>walk\<close> returns its descriptors only when the whole traversal succeeds: an
  error further on replaces the list collected so far.
\<close>

definition prepend :: "field list \<Rightarrow> (error + field list) result \<Rightarrow> (error + field list) result" where
  "prepend ps r = (case r of Returns (Inr qs) \<Rightarrow> Returns (Inr (ps @ qs)) | other \<Rightarrow> other)"

text \<open>
  \<^verbatim>\<open>walk\<close> and its loop over the fields.  \<^verbatim>\<open>walk\<close> takes the handle of a struct
  and the content of that struct and returns, besides its result, the content
  afterwards: the pointers it has allocated stay allocated when it fails.
  \<^verbatim>\<open>v.NumField()\<close> panics when \<open>v\<close> is not a struct, \<^verbatim>\<open>fv.Set\<close> when \<open>fv\<close> is
  not settable.  The loop \<open>walkFields\<close> runs over the fields from index \<open>i\<close> on
  and over their contents; \<open>fv0\<close> is the content of the field before the
  call, \<open>x\<close> the content the descriptor is bound to.  A content with fewer
  values than the type has fields does not arise.
\<close>

function walk ::
    "(string \<Rightarrow> 'd \<Rightarrow> string option) \<Rightarrow> 'd \<Rightarrow> rvalue \<Rightarrow> gval
       \<Rightarrow> (error + field list) result \<times> gval"
  and walkFields ::
    "(string \<Rightarrow> 'd \<Rightarrow> string option) \<Rightarrow> 'd \<Rightarrow> rvalue \<Rightarrow> nat \<Rightarrow> sfield list \<Rightarrow> gval list
       \<Rightarrow> (error + field list) result \<times> gval list"
where
  "walk tpl data v cur =
     (case vtype v of
        TStruct n ts fs \<Rightarrow>
          (case cur of
             VStruct vs \<Rightarrow>
               (let (r, vs1) = walkFields tpl data v 0 fs vs in (r, VStruct vs1))
           | other \<Rightarrow> (Panics ''content is not a struct'', cur))
      | other \<Rightarrow>
          (Panics ''reflect: call of reflect.Value.NumField on non-struct Value'', cur))"
| "walkFields tpl data v i [] vs = (Returns (Inr []), vs)"
| "walkFields tpl data v i (ft # fts) [] = (Panics ''content has too few fields'', [])"
| "walkFields tpl data v i (ft # fts) (fv0 # vs) =
     (if PkgPath ft \<noteq> []
      then (let (r, vs1) = walkFields tpl data v (i + 1) fts vs in (r, fv0 # vs1))
      else
        let fv = Field v ft i;
            ptr = isPtr (vtype fv)
        in if ptr \<and> \<not> CanSet fv
           then (Panics ''reflect: reflect.Value.Set using unaddressable value'', fv0 # vs)
           else
             let fv1 = (if ptr then Indirect fv else fv);
                 x = (if ptr then zero (elemType (vtype fv)) else fv0);
                 stored = (\<lambda>y. if ptr then VPtr (Some y) else y)
             in case tag tpl ft data of
                  Inl err \<Rightarrow> (Returns (Inl err), stored x # vs)
                | Inr (Some pf) \<Rightarrow>
                    (let (r, vs1) = walkFields tpl data v (i + 1) fts vs
                     in (prepend [pf\<lparr>field := ft, value := fv1\<rparr>] r, stored x # vs1))
                | Inr None \<Rightarrow>
                    if isStruct (vtype fv1)
                    then (case walk tpl data fv1 x of
                            (Returns (Inr tags), x1) \<Rightarrow>
                              (let (r, vs1) = walkFields tpl data v (i + 1) fts vs
                               in (prepend tags r, stored x1 # vs1))
                          | (other, x1) \<Rightarrow> (other, stored x1 # vs))
                    else (let (r, vs1) = walkFields tpl data v (i + 1) fts vs
                          in (r, stored x # vs1)))"
  by pat_completeness auto
termination
  apply (relation "measure (\<lambda>x. case x of
            Inl (tpl, data, v, cur) \<Rightarrow> size (vtype v)
          | Inr (tpl, data, v, i, fs, vs) \<Rightarrow> size_list size fs)")
       apply simp_all
  subgoal for tpl data v i ft fts
    by (cases ft; cases "Type ft") (simp_all add: Field_def Indirect_def)
  done

declare walk.simps [simp del]

declare walkFields.simps [simp del]

text \<open>
  The body of the loop for one field, on its own: the result is
  \<open>Returns (Inr hs)\<close> with the descriptors the field adds when the loop goes
  on, anything else when the traversal stops there; the second component is
  the content of the field afterwards.
\<close>

definition walkField ::
  "(string \<Rightarrow> 'd \<Rightarrow> string option) \<Rightarrow> 'd \<Rightarrow> rvalue \<Rightarrow> nat \<Rightarrow> sfield \<Rightarrow> gval
     \<Rightarrow> (error + field list) result \<times> gval" where
  "walkField tpl data v i ft fv0 =
     (if PkgPath ft \<noteq> [] then (Returns (Inr []), fv0)
      else
        let fv = Field v ft i;
            ptr = isPtr (vtype fv)
        in if ptr \<and> \<not> CanSet fv
           then (Panics ''reflect: reflect.Value.Set using unaddressable value'', fv0)
           else
             let fv1 = (if ptr then Indirect fv else fv);
                 x = (if ptr then zero (elemType (vtype fv)) else fv0);
                 stored = (\<lambda>y. if ptr then VPtr (Some y) else y)
             in case tag tpl ft data of
                  Inl err \<Rightarrow> (Returns (Inl err), stored x)
                | Inr (Some pf) \<Rightarrow> (Returns (Inr [pf\<lparr>field := ft, value := fv1\<rparr>]), stored x)
                | Inr None \<Rightarrow>
                    if isStruct (vtype fv1)
                    then (case walk tpl data fv1 x of (r, x1) \<Rightarrow> (r, stored x1))
                    else (Returns (Inr []), stored x))"

section \<open>The loader\<close>

text \<open>
  The store client, as far as the package uses it: \<^verbatim>\<open>GetParameters\<close> takes the
  names and the decryption flag and returns an error or the parameters found
  (name and value; a missing name or value reads as the empty string, as
  \<^verbatim>\<open>aws.StringValue\<close> does) and the names not found.
\<close>

type_synonym Parameter = "string \<times> string"

record GetParametersOutput =
  Parameters :: "Parameter list"
  InvalidParameters :: "string list"

type_synonym SSMAPI = "string list \<Rightarrow> bool \<Rightarrow> error + GetParametersOutput"

definition maxParameters :: int where
  "maxParameters = 10"

text \<open>\<^verbatim>\<open>strings.Join\<close>.\<close>

fun Join :: "string list \<Rightarrow> string \<Rightarrow> string" where
  "Join [] sep = []"
| "Join [a] sep = a"
| "Join (a # b # bs) sep = a @ sep @ Join (b # bs) sep"

definition parameterNames :: "field list \<Rightarrow> string list" where
  "parameterNames f = map key f"

definition indexParameters :: "Parameter list \<Rightarrow> (string \<rightharpoonup> Parameter)" where
  "indexParameters params = foldl (\<lambda>idx p. idx(fst p \<mapsto> p)) Map.empty params"

definition getParameters :: "SSMAPI \<Rightarrow> field list \<Rightarrow> bool \<Rightarrow> error + Parameter list" where
  "getParameters c f decr =
     (case c (parameterNames f) decr of
        Inl err \<Rightarrow> Inl err
      | Inr res \<Rightarrow>
          if length (InvalidParameters res) \<noteq> 0
          then Inl (ErrorString (''invalid parameters: '' @ Join (InvalidParameters res) '', ''))
          else Inr (Parameters res))"

text \<open>
  The record in memory is the content of the struct the caller's pointer
  points to; a location is reached from it by its steps.
\<close>

fun getAt :: "step list \<Rightarrow> gval \<Rightarrow> gval option" where
  "getAt [] x = Some x"
| "getAt (Fld i # p) (VStruct vs) = (if i < length vs then getAt p (vs ! i) else None)"
| "getAt (Deref # p) (VPtr (Some y)) = getAt p y"
| "getAt (Idx i # p) (VSlice xs) = (if i < length xs then getAt p (xs ! i) else None)"
| "getAt p x = None"

fun putAt :: "step list \<Rightarrow> gval \<Rightarrow> gval \<Rightarrow> gval" where
  "putAt [] new x = new"
| "putAt (Fld i # p) new (VStruct vs) =
     (if i < length vs then VStruct (vs[i := putAt p new (vs ! i)]) else VStruct vs)"
| "putAt (Deref # p) new (VPtr (Some y)) = VPtr (Some (putAt p new y))"
| "putAt (Idx i # p) new (VSlice xs) =
     (if i < length xs then VSlice (xs[i := putAt p new (xs ! i)]) else VSlice xs)"
| "putAt p new x = x"

text \<open>
  \<^verbatim>\<open>set(x, s)\<close> on the record: the content of the descriptor's location goes
  through \<open>set_value\<close> and back.  The descriptors come from \<^verbatim>\<open>walk\<close> on this
  record, so the location is there.
\<close>

definition setAt :: "lib \<Rightarrow> field \<Rightarrow> string \<Rightarrow> gval \<Rightarrow> error option \<times> gval" where
  "setAt lib x s root =
     (case getAt (loc (value x)) root of
        Some cur \<Rightarrow>
          (let (err, new) = set_value lib x cur s
           in (err, putAt (loc (value x)) new root))
      | None \<Rightarrow> (Some (ErrorString ''location is not in the record''), root))"

text \<open>The loader puts the field's name into a \<open>ConvertTypeError\<close>.\<close>

fun enrich :: "error \<Rightarrow> field \<Rightarrow> error" where
  "enrich (ConvertTypeError fld ty val) x = ConvertTypeError (Name (field x)) ty val"
| "enrich err x = err"

text \<open>The loop of \<^verbatim>\<open>loadParameters\<close> over the descriptors of a batch.\<close>

fun loadLoop :: "lib \<Rightarrow> (string \<rightharpoonup> Parameter) \<Rightarrow> field list \<Rightarrow> gval \<Rightarrow> error option \<times> gval" where
  "loadLoop lib idx [] root = (None, root)"
| "loadLoop lib idx (x # xs) root =
     (case idx (key x) of
        None \<Rightarrow>
          (Some (ErrorString (''failed to load parameter for key '' @ [CHR 0x27] @ key x @ [CHR 0x27])),
           root)
      | Some p \<Rightarrow>
          (case setAt lib x (snd p) root of
             (Some err, root1) \<Rightarrow> (Some (enrich err x), root1)
           | (None, root1) \<Rightarrow> loadLoop lib idx xs root1))"

definition loadParameters :: "lib \<Rightarrow> SSMAPI \<Rightarrow> field list \<Rightarrow> bool \<Rightarrow> gval \<Rightarrow> error option \<times> gval" where
  "loadParameters lib c f decr root =
     (case getParameters c f decr of
        Inl err \<Rightarrow> (Some err, root)
      | Inr params \<Rightarrow> loadLoop lib (indexParameters params) f root)"

text \<open>
  \<^verbatim>\<open>load\<close>: the plain descriptors batch by batch, then the ones to decrypt.
\<close>

definition load :: "lib \<Rightarrow> SSMAPI \<Rightarrow> field list \<Rightarrow> gval \<Rightarrow> (error option result \<times> gval) option" where
  "load lib c f root =
     (let (plain, decr) = partitionFields f decrypt
      in case batchIterateFields plain maxParameters (\<lambda>f. loadParameters lib c f False) root of
           Some (Returns None, root1) \<Rightarrow>
             batchIterateFields decr maxParameters (\<lambda>f. loadParameters lib c f True) root1
         | other \<Rightarrow> other)"

text \<open>
  The argument \<^verbatim>\<open>v interface{}\<close> of \<^verbatim>\<open>Load\<close>: \<open>nil\<close>, or a value with its dynamic
  type.  \<open>TypeOf\<close> is \<^verbatim>\<open>reflect.TypeOf\<close>, with \<open>None\<close> for the \<open>nil\<close> type.
\<close>

datatype iface = INil | IVal gtype gval

fun TypeOf :: "iface \<Rightarrow> gtype option" where
  "TypeOf INil = None"
| "TypeOf (IVal t x) = Some t"

fun pointee :: "gval \<Rightarrow> gval option" where
  "pointee (VPtr p) = p"
| "pointee x = None"

text \<open>
  \<^verbatim>\<open>LoadWithParameters\<close>.  It returns the watcher and the error, or panics, and
  leaves the caller's argument as the second component shows.  The watcher is
  built by \<open>mkWatcher\<close> from the parameters when there are any (the source
  copies and hashes them through \<^verbatim>\<open>reflect\<close> and \<^verbatim>\<open>unsafe\<close>, which can panic);
  \<open>None\<close> is the empty \<^verbatim>\<open>defaultWatcher{}\<close>.  The template data of \<^verbatim>\<open>tag\<close> is
  \<open>data\<close>, with \<open>None\<close> for \<open>nil\<close>.
\<close>

definition LoadWithParameters ::
  "lib \<Rightarrow> (string \<Rightarrow> 'd option \<Rightarrow> string option) \<Rightarrow> ('d \<Rightarrow> 'w result) \<Rightarrow> SSMAPI \<Rightarrow> iface \<Rightarrow> 'd option
     \<Rightarrow> (('w option \<times> error option) result \<times> iface) option" where
  "LoadWithParameters lib tpl mkWatcher c v data =
     (case v of
        INil \<Rightarrow> Some (Returns (None, Some (InvalidTypeError (TypeOf v))), v)
      | IVal t x \<Rightarrow>
          (case (if isPtr t then pointee x else None) of
             None \<Rightarrow> Some (Returns (None, Some (InvalidTypeError (TypeOf v))), v)
           | Some cur \<Rightarrow>
               (let rv = \<lparr>vtype = elemType t, flagAddr = True, flagRO = False, loc = []\<rparr>
                in case walk tpl data rv cur of
                     (Panics m, cur1) \<Rightarrow> Some (Panics m, IVal t (VPtr (Some cur1)))
                   | (Returns (Inl err), cur1) \<Rightarrow>
                       Some (Returns (None, Some err), IVal t (VPtr (Some cur1)))
                   | (Returns (Inr fs), cur1) \<Rightarrow>
                       (case load lib c fs cur1 of
                          None \<Rightarrow> None
                        | Some (Panics m, cur2) \<Rightarrow> Some (Panics m, IVal t (VPtr (Some cur2)))
                        | Some (Returns (Some err), cur2) \<Rightarrow>
                            Some (Returns (None, Some err), IVal t (VPtr (Some cur2)))
                        | Some (Returns None, cur2) \<Rightarrow>
                            (case data of
                               None \<Rightarrow> Some (Returns (None, None), IVal t (VPtr (Some cur2)))
                             | Some d \<Rightarrow>
                                 (case mkWatcher d of
                                    Panics m \<Rightarrow> Some (Panics m, IVal t (VPtr (Some cur2)))
                                  | Returns w \<Rightarrow>
                                      Some (Returns (Some w, None),
                                            IVal t (VPtr (Some cur2)))))))))"

definition Load_figgy ::
  "lib \<Rightarrow> (string \<Rightarrow> 'd option \<Rightarrow> string option) \<Rightarrow> ('d \<Rightarrow> 'w result) \<Rightarrow> SSMAPI \<Rightarrow> iface
     \<Rightarrow> (('w option \<times> error option) result \<times> iface) option" where
  "Load_figgy lib tpl mkWatcher c v = LoadWithParameters lib tpl mkWatcher c v None"

text \<open>
  The order in which \<^verbatim>\<open>load\<close> fetches: the batches of the plain descriptors,
  then the batches of the descriptors to decrypt, each with its decryption
  flag; and the run over such a list of batches, which stops at the first
  error.
\<close>

definition loadOrder :: "field list \<Rightarrow> (field list \<times> bool) list" where
  "loadOrder f =
     (let (plain, decr) = partitionFields f decrypt
      in map (\<lambda>b. (b, False)) (chunks (nat maxParameters) plain)
         @ map (\<lambda>b. (b, True)) (chunks (nat maxParameters) decr))"

fun runLoad :: "lib \<Rightarrow> SSMAPI \<Rightarrow> (field list \<times> bool) list \<Rightarrow> gval \<Rightarrow> error option \<times> gval" where
  "runLoad lib c [] root = (None, root)"
| "runLoad lib c ((b, d) # bs) root =
     (case loadParameters lib c b d root of
        (Some err, root1) \<Rightarrow> (Some err, root1)
      | (None, root1) \<Rightarrow> runLoad lib c bs root1)"

text \<open>
  The store of the repository's tests, \<^verbatim>\<open>MockSSMClient.GetParameters\<close>, over
  three of its parameters: it refuses more than \<open>maxParameters\<close> names and
  sorts the names into found and not found.
\<close>

definition mockData :: "(string \<times> string) list" where
  "mockData = [(''string'', ''this is a string''), (''bool'', ''true''), (''int'', ''2'')]"

definition MockSSMClient :: SSMAPI where
  "MockSSMClient names decr =
     (if int (length names) > maxParameters
      then Inl (ErrorString ''max parameters exceeded'')
      else Inr \<lparr>Parameters =
                  concat (map (\<lambda>n. case map_of mockData n of
                                      Some v \<Rightarrow> [(n, v)]
                                    | None \<Rightarrow> []) names),
                InvalidParameters = filter (\<lambda>n. map_of mockData n = None) names\<rparr>)"

text \<open>
  Records of the tests' kind: one whose two annotations name parameters the
  store does not have; the tests' \<^verbatim>\<open>Nested\<close>, with a bound field and a bound
  pointer field; and one with a bound field, a pointer field that has no
  annotation and a pointer to a \<^verbatim>\<open>Nested\<close> that has none either.
\<close>

definition missingType :: gtype where
  "missingType =
     TStruct [] ''struct { Invalid string; Other string }''
       [StructField ''Invalid'' [] ''/no/such/param'' stringType,
        StructField ''Other'' [] ''/nor/this'' stringType]"

definition nestedType :: gtype where
  "nestedType =
     TStruct ''Nested'' ''figgy.Nested''
       [StructField ''String'' [] ''string'' stringType,
        StructField ''PString'' [] ''pstring'' (ptrTo stringType)]"

definition pointerRecordType :: gtype where
  "pointerRecordType =
     TStruct [] ''struct { String string; P *int; PNested *figgy.Nested }''
       [StructField ''String'' [] ''string'' stringType,
        StructField ''P'' [] [] (ptrTo intType),
        StructField ''PNested'' [] [] (ptrTo nestedType)]"

text \<open>
  The handle \<^verbatim>\<open>rv.Elem()\<close> of such a record behind a pointer.
\<close>

definition pointerRecord :: rvalue where
  "pointerRecord = \<lparr>vtype = pointerRecordType, flagAddr = True, flagRO = False, loc = []\<rparr>"

definition noTemplate :: "string \<Rightarrow> unit option \<Rightarrow> string option" where
  "noTemplate k data = Some k"

definition noWatcher :: "unit \<Rightarrow> unit result" where
  "noWatcher d = Returns ()"

section \<open>Properties of the partition\<close>

lemma partitionSwap_rot:
  "B \<noteq> [] \<Longrightarrow>
   partitionSwap P (A @ B @ C) (length A) (length A + length B) =
     (case rot P A B C of (A', B') \<Rightarrow> (A' @ B', length A'))"
proof (induction C arbitrary: A B)
  case Nil
  show ?case by (subst partitionSwap.simps) simp
next
  case (Cons c cs)
  then obtain b bs where B: "B = b # bs" by (cases B) auto
  have nthj: "(A @ B @ c # cs) ! (length A + length B) = c"
    by (simp add: nth_append)
  have nthi: "(A @ B @ c # cs) ! length A = b"
    by (simp add: B nth_append)
  have upd: "(A @ B @ c # cs)[length A := c, length A + length B := b]
             = (A @ [c]) @ (bs @ [b]) @ cs"
    by (simp add: B list_update_append)
  show ?case
  proof (cases "P c")
    case True
    have "partitionSwap P (A @ B @ c # cs) (length A) (length A + length B)
          = partitionSwap P (A @ (B @ [c]) @ cs) (length A) (length A + length (B @ [c]))"
      by (subst partitionSwap.simps) (simp add: nthj True)
    also have "\<dots> = (case rot P A (B @ [c]) cs of (A', B') \<Rightarrow> (A' @ B', length A'))"
      by (rule Cons.IH) simp
    finally show ?thesis using True by simp
  next
    case False
    have "partitionSwap P (A @ B @ c # cs) (length A) (length A + length B)
          = partitionSwap P ((A @ [c]) @ (bs @ [b]) @ cs) (length (A @ [c])) (length (A @ [c]) + length (bs @ [b]))"
      apply (subst partitionSwap.simps)
      apply (simp only: nthj nthi False upd)
      apply (simp add: B)
      done
    also have "\<dots> = (case rot P (A @ [c]) (bs @ [b]) cs of (A', B') \<Rightarrow> (A' @ B', length A'))"
      by (rule Cons.IH) simp
    finally show ?thesis using False by (simp add: B)
  qed
qed

lemma rot_fst: "fst (rot P A B C) = A @ filter (\<lambda>x. \<not> P x) C"
  by (induction C arbitrary: A B) auto

lemma mset_tl_hd: "B \<noteq> [] \<Longrightarrow> mset (tl B @ [hd B]) = mset B"
  by (cases B) auto

lemma rot_snd: "B \<noteq> [] \<Longrightarrow> mset (snd (rot P A B C)) = mset B + mset (filter P C)"
proof (induction C arbitrary: A B)
  case Nil
  show ?case by simp
next
  case (Cons c cs)
  show ?case
  proof (cases "P c")
    case True
    have "mset (snd (rot P A (B @ [c]) cs)) = mset (B @ [c]) + mset (filter P cs)"
      by (rule Cons.IH) simp
    then show ?thesis using True by simp
  next
    case False
    have ne: "tl B @ [hd B] \<noteq> []" by simp
    have eq: "mset (tl B @ [hd B]) = mset B"
      by (rule mset_tl_hd [OF Cons.prems])
    have "mset (snd (rot P (A @ [c]) (tl B @ [hd B]) cs)) = mset (tl B @ [hd B]) + mset (filter P cs)"
      by (rule Cons.IH [OF ne])
    then have "mset (snd (rot P (A @ [c]) (tl B @ [hd B]) cs)) = mset B + mset (filter P cs)"
      by (simp only: eq)
    then show ?thesis using False by simp
  qed
qed

lemma partitionScan_from:
  "partitionScan P (A @ C) (length A) = length A + length (takeWhile (\<lambda>x. \<not> P x) C)"
proof (induction C arbitrary: A)
  case Nil
  show ?case by (subst partitionScan.simps) simp
next
  case (Cons c cs)
  show ?case
  proof (cases "P c")
    case True
    then show ?thesis by (subst partitionScan.simps) (simp add: nth_append)
  next
    case False
    have "partitionScan P (A @ c # cs) (length A) = partitionScan P ((A @ [c]) @ cs) (length (A @ [c]))"
      by (subst partitionScan.simps) (simp add: nth_append False)
    also have "\<dots> = length (A @ [c]) + length (takeWhile (\<lambda>x. \<not> P x) cs)"
      by (rule Cons.IH)
    finally show ?thesis using False by simp
  qed
qed

lemma partitionFields_all_plain:
  assumes "\<forall>x\<in>set f. \<not> suffix x"
  shows "partitionFields f suffix = (f, [])"
proof -
  have tw: "takeWhile (\<lambda>x. \<not> suffix x) f = f"
    using assms by (simp add: takeWhile_eq_all_conv)
  have scan: "partitionScan suffix f 0 = length f"
    using partitionScan_from [of suffix "[]" f] by (simp add: tw)
  have sw: "partitionSwap suffix f (length f) (length f + 1) = (f, length f)"
    by (subst partitionSwap.simps) simp
  show ?thesis
    unfolding partitionFields_def scan Let_def sw by simp
qed

lemma partitionFields_split:
  assumes A: "\<forall>x\<in>set A. \<not> suffix x" and d: "suffix d"
  shows "partitionFields (A @ d # ds) suffix = rot suffix A [d] ds"
proof -
  have tw: "takeWhile (\<lambda>x. \<not> suffix x) (A @ d # ds) = A"
    using A d by (simp add: takeWhile_append2)
  have scan: "partitionScan suffix (A @ d # ds) 0 = length A"
    using partitionScan_from [of suffix "[]" "A @ d # ds"] by (simp add: tw)
  obtain A' B' where r: "rot suffix A [d] ds = (A', B')"
    by (cases "rot suffix A [d] ds")
  have "partitionSwap suffix (A @ [d] @ ds) (length A) (length A + length [d])
          = (case rot suffix A [d] ds of (A', B') \<Rightarrow> (A' @ B', length A'))"
    by (rule partitionSwap_rot) simp
  then have sw: "partitionSwap suffix (A @ d # ds) (length A) (length A + 1) = (A' @ B', length A')"
    by (simp add: r)
  show ?thesis
    unfolding partitionFields_def scan Let_def sw r by simp
qed


lemma mset_filter_both: "mset (filter (\<lambda>x. \<not> P x) f) + mset (filter P f) = mset f"
  by (induction f) auto

text \<open>
  Claim C1, as amended.  \<^verbatim>\<open>partitionFields\<close> is the half stable partition its
  comment announces: the first list is exactly the elements for which the
  predicate is false, in their original relative order; the second list holds
  exactly the elements for which the predicate is true, each as often as in
  the input, in an order the swaps decide; together the two lists hold exactly
  the elements of the input.
\<close>

theorem partitionFields_half_stable:
  "fst (partitionFields f suffix) = filter (\<lambda>x. \<not> suffix x) f \<and>
   mset (snd (partitionFields f suffix)) = mset (filter suffix f) \<and>
   mset (fst (partitionFields f suffix) @ snd (partitionFields f suffix)) = mset f"
proof -
  have main: "fst (partitionFields f suffix) = filter (\<lambda>x. \<not> suffix x) f \<and>
      mset (snd (partitionFields f suffix)) = mset (filter suffix f)"
  proof (cases "\<forall>x\<in>set f. \<not> suffix x")
    case True
    have "filter (\<lambda>x. \<not> suffix x) f = f" using True by (simp add: filter_id_conv)
    moreover have "filter suffix f = []" using True by (simp add: filter_empty_conv)
    ultimately show ?thesis by (simp add: partitionFields_all_plain [OF True])
  next
    case False
    then have "\<exists>x\<in>set f. suffix x" by simp
    then obtain A d ds where fe: "f = A @ d # ds" and d: "suffix d"
      and A: "\<forall>x\<in>set A. \<not> suffix x"
      using split_list_first_prop [of f suffix] by blast
    have pf: "partitionFields f suffix = rot suffix A [d] ds"
      unfolding fe by (rule partitionFields_split [OF A d])
    have A_filter: "filter (\<lambda>x. \<not> suffix x) A = A"
      using A by (simp add: filter_id_conv)
    have A_none: "filter suffix A = []"
      using A by (simp add: filter_empty_conv)
    have f1: "filter (\<lambda>x. \<not> suffix x) f = A @ filter (\<lambda>x. \<not> suffix x) ds"
      unfolding fe by (simp add: A_filter d)
    have f2: "filter suffix f = d # filter suffix ds"
      unfolding fe by (simp add: A_none d)
    have "mset (snd (rot suffix A [d] ds)) = mset [d] + mset (filter suffix ds)"
      by (rule rot_snd) simp
    then show ?thesis by (simp add: pf rot_fst f1 f2)
  qed
  from main mset_filter_both [of suffix f] show ?thesis by simp
qed

text \<open>
  Claim C1 as stated asks for both groups in original order.  On the input
  \<open>[1, 2, 0]\<close> with the predicate \<open>0 < x\<close> the second loop swaps \<open>0\<close> with \<open>1\<close>,
  and the second group comes out as \<open>[2, 1]\<close>, not \<open>[1, 2]\<close>.
\<close>

theorem partitionFields_second_group_unstable:
  "snd (partitionFields [1, 2, 0 :: nat] (\<lambda>x. 0 < x)) = [2, 1] \<and>
   snd (partitionFields [1, 2, 0 :: nat] (\<lambda>x. 0 < x)) \<noteq> filter (\<lambda>x. 0 < x) [1, 2, 0]"
  by code_simp

section \<open>Properties of the batching loop\<close>

lemma chunks_Nil [simp]: "chunks n [] = []"
  by (subst chunks.simps) simp

lemma chunks_step: "0 < n \<Longrightarrow> xs \<noteq> [] \<Longrightarrow> chunks n xs = take n xs # chunks n (drop n xs)"
  by (subst chunks.simps) simp

lemma batchLoop_done: "\<not> i < int (length f) \<Longrightarrow> batchLoop f batchSize g i s = Some (Returns None, s)"
  by (subst batchLoop.simps) simp

lemma batchLoop_step:
  "0 < batchSize \<Longrightarrow> i < int (length f) \<Longrightarrow>
   batchLoop f batchSize g i s =
     (case g (slice f i (min (i + batchSize) (int (length f)))) s of
        (Some err, s') \<Rightarrow> Some (Returns (Some err), s')
      | (None, s') \<Rightarrow> batchLoop f batchSize g (min (i + batchSize) (int (length f))) s')"
  apply (subst batchLoop.simps)
  apply (simp only: Let_def min_def if_True)
  apply (simp only: not_less [symmetric] split: if_splits)
  apply auto
  done


lemma batchLoop_chunks:
  assumes pos: "0 < batchSize"
  shows "i \<le> length f \<Longrightarrow>
         batchLoop f batchSize g (int i) s =
           Some (case runBatches g (chunks (nat batchSize) (drop i f)) s of
                   (r, s') \<Rightarrow> (Returns r, s'))"
proof (induction "length f - i" arbitrary: i s rule: less_induct)
  case less
  show ?case
  proof (cases "i < length f")
    case False
    then have d: "drop i f = []" by simp
    have "batchLoop f batchSize g (int i) s = Some (Returns None, s)"
      by (rule batchLoop_done) (use False in simp)
    then show ?thesis by (simp add: d)
  next
    case True
    define j where "j = min (i + nat batchSize) (length f)"
    have jint: "min (int i + batchSize) (int (length f)) = int j"
      using pos by (auto simp: j_def min_def)
    have ji: "i < j" "j \<le> length f" using True pos by (auto simp: j_def)
    have sl: "slice f (int i) (int j) = take (nat batchSize) (drop i f)"
      using ji pos by (auto simp: slice_def j_def min_def)
    have dr: "drop (nat batchSize) (drop i f) = drop j f"
      using pos by (auto simp: j_def min_def add.commute)
    have ne: "drop i f \<noteq> []" using True by simp
    have ch: "chunks (nat batchSize) (drop i f)
              = take (nat batchSize) (drop i f) # chunks (nat batchSize) (drop j f)"
    proof -
      have "0 < nat batchSize" using pos by simp
      from chunks_step [OF this ne] show ?thesis by (simp only: dr)
    qed
    have step: "batchLoop f batchSize g (int i) s =
       (case g (take (nat batchSize) (drop i f)) s of
          (Some err, s') \<Rightarrow> Some (Returns (Some err), s')
        | (None, s') \<Rightarrow> batchLoop f batchSize g (int j) s')"
      using batchLoop_step [of batchSize "int i" f g s] pos True
      by (simp only: jint sl of_nat_less_iff)
    have IH: "\<And>s'. batchLoop f batchSize g (int j) s' =
           Some (case runBatches g (chunks (nat batchSize) (drop j f)) s' of
                   (r, s'') \<Rightarrow> (Returns r, s''))"
      using less(1) [of j] ji True by simp
    show ?thesis
      unfolding step ch by (simp add: IH split: prod.splits option.splits)
  qed
qed

lemma concat_chunks: "0 < n \<Longrightarrow> concat (chunks n xs) = xs"
proof (induction n xs rule: chunks.induct)
  case (1 n xs)
  show ?case
  proof (cases "xs = []")
    case True then show ?thesis by simp
  next
    case False
    have "concat (chunks n xs) = take n xs @ concat (chunks n (drop n xs))"
      using chunks_step [OF "1.prems" False] by simp
    also have "\<dots> = take n xs @ drop n xs"
      using "1.IH" False "1.prems" by simp
    finally show ?thesis by simp
  qed
qed

lemma chunks_lengths:
  "0 < n \<Longrightarrow> b \<in> set (chunks n xs) \<Longrightarrow> 0 < length b \<and> length b \<le> n"
proof (induction n xs rule: chunks.induct)
  case (1 n xs)
  show ?case
  proof (cases "xs = []")
    case True then show ?thesis using "1.prems" by simp
  next
    case False
    have "b = take n xs \<or> b \<in> set (chunks n (drop n xs))"
      using chunks_step [OF "1.prems"(1) False] "1.prems"(2) by simp
    then show ?thesis
    proof
      assume "b = take n xs"
      then show ?thesis using False "1.prems"(1) by (cases xs) auto
    next
      assume "b \<in> set (chunks n (drop n xs))"
      then show ?thesis using "1.IH" False "1.prems"(1) by simp
    qed
  qed
qed

lemma chunks_full_but_last:
  "0 < n \<Longrightarrow> b \<in> set (butlast (chunks n xs)) \<Longrightarrow> length b = n"
proof (induction n xs rule: chunks.induct)
  case (1 n xs)
  show ?case
  proof (cases "xs = []")
    case True then show ?thesis using "1.prems" by simp
  next
    case False
    have ch: "chunks n xs = take n xs # chunks n (drop n xs)"
      by (rule chunks_step [OF "1.prems"(1) False])
    show ?thesis
    proof (cases "chunks n (drop n xs) = []")
      case True
      then show ?thesis using "1.prems"(2) ch by simp
    next
      case ne: False
      then have "drop n xs \<noteq> []" by auto
      then have len: "n < length xs" by simp
      have "b = take n xs \<or> b \<in> set (butlast (chunks n (drop n xs)))"
        using "1.prems"(2) ch ne by simp
      then show ?thesis
      proof
        assume "b = take n xs"
        then show ?thesis using len by simp
      next
        assume "b \<in> set (butlast (chunks n (drop n xs)))"
        then show ?thesis using "1.IH" False "1.prems"(1) by simp
      qed
    qed
  qed
qed

lemma chunks_step_length:
  "0 < n \<Longrightarrow> 0 < length xs \<Longrightarrow> chunks n xs = take n xs # chunks n (drop n xs)"
  by (rule chunks_step) auto

lemma chunk_sizes_23_10: "length f = 23 \<Longrightarrow> map length (chunks 10 f) = [10, 10, 3]"
  by (simp add: chunks_step_length)

text \<open>
  Claim C4.  For a positive batch size \<^verbatim>\<open>batchIterateFields\<close> returns, and it has
  applied the callback to the contiguous slices \<open>chunks\<close> of the input, in
  order, up to the callback's first error.  The slices concatenate to the
  input, none is empty, each has at most \<open>batchSize\<close> elements and all but the
  last have exactly \<open>batchSize\<close>.  On the empty input the callback is not
  called at all: the state comes back unchanged whatever the callback is.
  Twenty-three descriptors with a maximum of ten give batches of sizes
  10, 10 and 3.
\<close>

theorem batchIterateFields_batches:
  assumes "0 < batchSize"
  shows "batchIterateFields f batchSize g s =
           Some (case runBatches g (chunks (nat batchSize) f) s of (r, s') \<Rightarrow> (Returns r, s'))
       \<and> concat (chunks (nat batchSize) f) = f
       \<and> (\<forall>b\<in>set (chunks (nat batchSize) f). 0 < length b \<and> length b \<le> nat batchSize)
       \<and> (\<forall>b\<in>set (butlast (chunks (nat batchSize) f)). length b = nat batchSize)
       \<and> batchIterateFields [] batchSize g s = Some (Returns None, s)
       \<and> (length f = 23 \<and> batchSize = 10 \<longrightarrow>
            map length (chunks (nat batchSize) f) = [10, 10, 3])"
proof -
  have n: "0 < nat batchSize" using assms by simp
  have run: "batchIterateFields f batchSize g s =
           Some (case runBatches g (chunks (nat batchSize) f) s of (r, s') \<Rightarrow> (Returns r, s'))"
    unfolding batchIterateFields_def
    using batchLoop_chunks [OF assms, of 0 f g s] by simp
  have emp: "batchIterateFields [] batchSize g s = Some (Returns None, s)"
    unfolding batchIterateFields_def
    using batchLoop_done [of 0 "[]" batchSize g s] by simp
  have sizes: "length f = 23 \<and> batchSize = 10 \<longrightarrow>
            map length (chunks (nat batchSize) f) = [10, 10, 3]"
    using chunk_sizes_23_10 [of f] by auto
  show ?thesis
    using run emp sizes concat_chunks [OF n, of f]
      chunks_lengths [OF n, of _ f] chunks_full_but_last [OF n, of _ f]
    by blast
qed

theorem batchIterateFields_batches_witness:
  "(0::int) < 10 \<and>
   batchIterateFields [0..<23] 10 (\<lambda>b s. (None :: unit option, s @ [b])) [] =
     Some (Returns None,
           [ [0, 1, 2, 3, 4, 5, 6, 7, 8, 9], [10, 11, 12, 13, 14, 15, 16, 17, 18, 19],
            [20, 21, 22 :: nat]]) \<and>
   map length (chunks 10 [0..<23 :: nat]) = [10, 10, 3]"
proof -
  have ch: "chunks 10 [0..<23 :: nat] =
      [ [0, 1, 2, 3, 4, 5, 6, 7, 8, 9], [10, 11, 12, 13, 14, 15, 16, 17, 18, 19], [20, 21, 22]]"
    by code_simp
  have h: "(0::int) < 10" by simp
  show ?thesis
    using batchIterateFields_batches [OF h, of "[0..<23]" "\<lambda>b s. (None :: unit option, s @ [b])" "[]"]
    by (simp add: ch)
qed

section \<open>Properties of the tag parser\<close>

lemma Split_no_sep: "sep \<notin> set s \<Longrightarrow> Split s sep = [s]"
  by (induction s) auto

lemma Split_nonempty: "Split s sep \<noteq> []"
  by (induction s) (auto split: list.splits)

lemma leadingRune_Nil [simp]: "leadingRune es [] = None"
  by (induction es) auto

lemma leadingRune_append:
  "leadingRune es (s @ t) = None \<Longrightarrow> leadingRune es s = None"
proof (induction es)
  case Nil
  show ?case by simp
next
  case (Cons e es)
  have n: "\<not> (e \<noteq> [] \<and> take (length e) (s @ t) = e)" and r: "leadingRune es (s @ t) = None"
    using Cons.prems by (auto split: if_splits)
  have "\<not> (e \<noteq> [] \<and> take (length e) s = e)"
  proof
    assume a: "e \<noteq> [] \<and> take (length e) s = e"
    then have "length (take (length e) s) = length e" by simp
    then have "length e \<le> length s" by (simp add: min_def split: if_splits)
    then have "take (length e) (s @ t) = take (length e) s" by simp
    with a n show False by simp
  qed
  then show ?case using Cons.IH [OF r] by simp
qed

lemma trimLeftRunes_fix: "leadingRune es s = None \<Longrightarrow> trimLeftRunes es s = s"
  by (subst trimLeftRunes.simps) simp

lemma trimLeftRunes_no_lead: "leadingRune es (trimLeftRunes es s) = None"
proof (induction es s rule: trimLeftRunes.induct)
  case (1 es s)
  show ?case
  proof (cases "leadingRune es s")
    case None
    then show ?thesis by (simp add: trimLeftRunes_fix)
  next
    case (Some n)
    then have "trimLeftRunes es s = trimLeftRunes es (drop n s)"
      by (subst trimLeftRunes.simps) simp
    then show ?thesis using "1.IH" [OF Some] by simp
  qed
qed

lemma trimLeftRunes_suffix: "\<exists>p. s = p @ trimLeftRunes es s"
proof (induction es s rule: trimLeftRunes.induct)
  case (1 es s)
  show ?case
  proof (cases "leadingRune es s")
    case None
    then show ?thesis by (simp add: trimLeftRunes_fix)
  next
    case (Some n)
    then have e: "trimLeftRunes es s = trimLeftRunes es (drop n s)"
      by (subst trimLeftRunes.simps) simp
    from "1.IH" [OF Some] obtain p where "drop n s = p @ trimLeftRunes es (drop n s)" by blast
    then have "s = (take n s @ p) @ trimLeftRunes es s"
      by (metis e append.assoc append_take_drop_id)
    then show ?thesis by blast
  qed
qed

lemma TrimSpace_Nil [simp]: "TrimSpace [] = []"
  by (simp add: TrimSpace_def trimLeftRunes_fix)

lemma TrimSpace_idem: "TrimSpace (TrimSpace s) = TrimSpace s"
proof -
  define t where "t = trimLeftRunes spaceRunes s"
  define T where "T = TrimSpace s"
  have rT: "rev T = trimLeftRunes (map rev spaceRunes) (rev t)"
    by (simp add: T_def TrimSpace_def t_def)
  obtain p where "rev t = p @ rev T"
    using trimLeftRunes_suffix [of "rev t" "map rev spaceRunes"] rT by auto
  then have "rev (rev t) = rev (p @ rev T)" by simp
  then have tT: "t = T @ rev p" by simp
  have "leadingRune spaceRunes t = None"
    unfolding t_def by (rule trimLeftRunes_no_lead)
  then have "leadingRune spaceRunes T = None"
    unfolding tT by (rule leadingRune_append)
  then have l: "trimLeftRunes spaceRunes T = T" by (rule trimLeftRunes_fix)
  have "leadingRune (map rev spaceRunes) (rev T) = None"
    unfolding rT by (rule trimLeftRunes_no_lead)
  then have "trimLeftRunes (map rev spaceRunes) (rev T) = rev T" by (rule trimLeftRunes_fix)
  then have "TrimSpace T = T" by (simp add: TrimSpace_def l)
  then show ?thesis by (simp add: T_def)
qed

text \<open>
  Claim C5, as amended.  An empty annotation and the annotation \<^verbatim>\<open>-\<close> give no
  descriptor and no error.  Any other annotation without a comma whose text
  does not trim to nothing gives a descriptor with both flags false whose key
  is the rendering of the trimmed text by the template engine, and the trimmed
  text itself when the engine fails on it.  Any annotation other than the
  empty one and \<^verbatim>\<open>-\<close> whose first comma segment trims to nothing fails with a
  \<open>TagParseError\<close> that carries the raw annotation and the field's name.
\<close>

theorem tag_without_options:
  "(ssmTag f = [] \<or> ssmTag f = ''-'' \<longrightarrow> tag tpl f data = Inr None)
   \<and> (ssmTag f \<noteq> [] \<and> ssmTag f \<noteq> ''-'' \<and> CHR '','' \<notin> set (ssmTag f)
        \<and> TrimSpace (ssmTag f) \<noteq> [] \<longrightarrow>
        (\<exists>fld. tag tpl f data = Inr (Some fld)
           \<and> key fld = (case tpl (TrimSpace (ssmTag f)) data of
                          Some b \<Rightarrow> b
                        | None \<Rightarrow> TrimSpace (ssmTag f))
           \<and> \<not> decrypt fld \<and> \<not> json fld))
   \<and> (ssmTag f \<noteq> [] \<and> ssmTag f \<noteq> ''-''
        \<and> TrimSpace (hd (Split (ssmTag f) (CHR '',''))) = [] \<longrightarrow>
        tag tpl f data = Inl (TagParseError (ssmTag f) (Name f)))"
proof (intro conjI impI)
  assume "ssmTag f = [] \<or> ssmTag f = ''-''"
  then show "tag tpl f data = Inr None"
    by (auto simp: tag_def)
next
  assume a: "ssmTag f \<noteq> [] \<and> ssmTag f \<noteq> ''-'' \<and> CHR '','' \<notin> set (ssmTag f)
        \<and> TrimSpace (ssmTag f) \<noteq> []"
  then have sp: "Split (ssmTag f) (CHR '','') = [ssmTag f]"
    by (simp add: Split_no_sep)
  show "\<exists>fld. tag tpl f data = Inr (Some fld)
           \<and> key fld = (case tpl (TrimSpace (ssmTag f)) data of
                          Some b \<Rightarrow> b
                        | None \<Rightarrow> TrimSpace (ssmTag f))
           \<and> \<not> decrypt fld \<and> \<not> json fld"
    using a
    by (cases "tpl (TrimSpace (ssmTag f)) data")
       (simp_all add: tag_def sp newField_def TrimSpace_idem Let_def)
next
  assume a: "ssmTag f \<noteq> [] \<and> ssmTag f \<noteq> ''-''
        \<and> TrimSpace (hd (Split (ssmTag f) (CHR '',''))) = []"
  have "TrimSpace [] = []" by (rule TrimSpace_Nil)
  with a show "tag tpl f data = Inl (TagParseError (ssmTag f) (Name f))"
    by (simp add: tag_def newField_def Let_def)
qed

lemma TrimSpace_examples:
  "TrimSpace '' parsed '' = ''parsed''"
  "TrimSpace '' '' = []"
  "TrimSpace [CHR 0xC2, CHR 0xA0] = []"
  by code_simp+

theorem tag_without_options_witness:
  "tag testTemplate (StructField ''Field'' [] [] (TPrim ''string'' ''string'' KString)) [] = Inr None
   \<and> (\<exists>fld. tag testTemplate
               (StructField ''Field'' [] '' parsed '' (TPrim ''string'' ''string'' KString)) []
             = Inr (Some fld)
          \<and> key fld = ''parsed'' \<and> \<not> decrypt fld \<and> \<not> json fld)
   \<and> tag testTemplate (StructField ''Field'' [] '' ,decrypt'' (TPrim ''string'' ''string'' KString)) []
       = Inl (TagParseError '' ,decrypt'' ''Field'')
   \<and> tag testTemplate
         (StructField ''Field'' [] [CHR 0xC2, CHR 0xA0] (TPrim ''string'' ''string'' KString)) []
       = Inl (TagParseError [CHR 0xC2, CHR 0xA0] ''Field'')"
  using tag_without_options
          [of "StructField ''Field'' [] [] (TPrim ''string'' ''string'' KString)" testTemplate "[]"]
        tag_without_options
          [of "StructField ''Field'' [] '' parsed '' (TPrim ''string'' ''string'' KString)"
              testTemplate "[]"]
        tag_without_options
          [of "StructField ''Field'' [] '' ,decrypt'' (TPrim ''string'' ''string'' KString)"
              testTemplate "[]"]
        tag_without_options
          [of "StructField ''Field'' [] [CHR 0xC2, CHR 0xA0] (TPrim ''string'' ''string'' KString)"
              testTemplate "[]"]
  by (simp add: TrimSpace_examples testTemplate_def)

text \<open>
  Claim C5 as stated makes the key of an annotation without a comma the
  trimmed text.  In the repository's own test \<^verbatim>\<open>with parameter\<close> the annotation
  \<^verbatim>\<open>/{{.Env}}/environment\<close> has no comma, and with the data \<open>Env = dev\<close> the key
  is \<^verbatim>\<open>/dev/environment\<close>.
\<close>

theorem tag_key_is_rendered:
  "CHR '','' \<notin> set ''/{{.Env}}/environment'' \<and>
   (case tag testTemplate
           (StructField ''Fields'' [] ''/{{.Env}}/environment'' (TPrim ''string'' ''string'' KString))
           [(''Env'', ''dev'')] of
      Inr (Some fld) \<Rightarrow>
        key fld = ''/dev/environment'' \<and> key fld \<noteq> TrimSpace ''/{{.Env}}/environment''
    | _ \<Rightarrow> False)"
  by code_simp

section \<open>Properties of the value converter\<close>

lemma ParseInt_in_range: "ParseInt s = Some n \<Longrightarrow> \<not> OverflowInt KInt64 n"
  by (auto simp: ParseInt_def Let_def OverflowInt_def split: if_splits option.splits)

lemma ParseDuration_3600s: "ParseDuration frac ''3600s'' = Some 3600000000000"
  by (simp add: ParseDuration_def durationLoop.simps durationTerm_def isNumberByte_def
        isDigit_def digit_def unitMap_def Let_def)

lemma ParseDuration_count: "ParseDuration frac ''3600000000000'' = None"
  by (simp add: ParseDuration_def durationLoop.simps durationTerm_def isNumberByte_def
        isDigit_def digit_def unitMap_def Let_def)

lemma ParseInt_count: "ParseInt ''3600000000000'' = Some 3600000000000"
  by (simp add: ParseInt_def ParseUint_def isDigit_def digit_def Let_def)

lemma set_value_switch:
  assumes "reachesSwitch lib f"
  shows "set_value lib f cur s =
     (case (if vtype (value f) = durationType then ParseDuration (fracNanos lib) s else None) of
        Some p \<Rightarrow> (None, VInt p)
      | None \<Rightarrow>
          (case vtype (value f) of
             TPtr n ts e \<Rightarrow>
               (None, VPtr (Some (snd (set_value lib (valueField (newElem e (loc (value f)))) (zero e) s))))
           | TSlice n ts e \<Rightarrow>
               (None,
                VSlice (map (\<lambda>(i, w). snd (set_value lib (valueField (Index (value f) e i)) (zero e) w))
                          (enumerate 0 (Split s (CHR '','')))))
           | TStruct n ts fs \<Rightarrow> (None, cur)
           | TPrim n ts k \<Rightarrow> setPrim lib k ts cur s))"
  using assms
  by (subst set_value.simps)
     (auto simp: reachesSwitch_def Let_def split: gtype.splits option.splits)

lemma setPrim_duration:
  "setPrim lib KInt64 ts cur s =
     (case ParseInt s of
        Some n \<Rightarrow> (None, VInt n)
      | None \<Rightarrow> (Some (ConvertTypeError [] ts s), cur))"
  by (simp add: setPrim_def ParseInt_in_range split: option.splits)

text \<open>
  Claim C6.  For a descriptor bound to a location of type \<^verbatim>\<open>time.Duration\<close> that
  reaches the duration step of the dispatch order (settable, no custom
  decoder, no \<^verbatim>\<open>json\<close> option), the text \<^verbatim>\<open>3600s\<close> goes through the duration
  parser and the text \<^verbatim>\<open>3600000000000\<close>, which the duration parser rejects,
  through the integer case of the \<^verbatim>\<open>switch\<close>; both succeed and assign the same
  value.  In general a text the duration parser rejects is parsed as a base-10
  \<^verbatim>\<open>int64\<close> count of nanoseconds, and fails with a \<open>ConvertTypeError\<close> when it
  is not one.
\<close>

theorem set_duration:
  assumes "reachesSwitch lib f" and "vtype (value f) = durationType"
  shows "set_value lib f cur ''3600s'' = (None, VInt 3600000000000)
       \<and> set_value lib f cur ''3600000000000'' = (None, VInt 3600000000000)
       \<and> (ParseDuration (fracNanos lib) s = None \<longrightarrow>
            set_value lib f cur s =
              (case ParseInt s of
                 Some n \<Rightarrow> (None, VInt n)
               | None \<Rightarrow> (Some (ConvertTypeError [] ''time.Duration'' s), cur)))"
proof (intro conjI impI)
  show "set_value lib f cur ''3600s'' = (None, VInt 3600000000000)"
    by (simp add: set_value_switch [OF assms(1)] assms(2) ParseDuration_3600s)
  have fallback: "set_value lib f cur s = setPrim lib KInt64 ''time.Duration'' cur s"
    if "ParseDuration (fracNanos lib) s = None" for s
    using that by (simp add: set_value_switch [OF assms(1)] assms(2) durationType_def)
  show "set_value lib f cur ''3600000000000'' = (None, VInt 3600000000000)"
    by (simp add: fallback [OF ParseDuration_count] setPrim_duration ParseInt_count)
  show "set_value lib f cur s =
              (case ParseInt s of
                 Some n \<Rightarrow> (None, VInt n)
               | None \<Rightarrow> (Some (ConvertTypeError [] ''time.Duration'' s), cur))"
    if "ParseDuration (fracNanos lib) s = None"
    using fallback [OF that] by (simp add: setPrim_duration)
qed

lemma reachesSwitch_duration: "reachesSwitch testLib (bound ''duration'' False False ''Duration'' durationType durationType [Fld 14])"
  by (simp add: reachesSwitch_def bound_def location_def CanSet_def unmarshaler_def
        CanAddr_def CanInterface_def Addr_def testLib_def durationType_def ptrTo_def strType_def)

theorem set_duration_witness:
  "reachesSwitch testLib (bound ''duration'' False False ''Duration'' durationType durationType [Fld 14])
   \<and> vtype (value (bound ''duration'' False False ''Duration'' durationType durationType [Fld 14])) = durationType
   \<and> set_value testLib (bound ''duration'' False False ''Duration'' durationType durationType [Fld 14])
        (VInt 0) ''3600s'' = (None, VInt 3600000000000)
   \<and> ParseDuration (fracNanos testLib) ''42'' = None
   \<and> set_value testLib (bound ''duration'' False False ''Duration'' durationType durationType [Fld 14])
        (VInt 0) ''42'' = (None, VInt 42)"
proof -
  have t: "vtype (value (bound ''duration'' False False ''Duration'' durationType durationType [Fld 14])) = durationType"
    by (simp add: bound_def location_def)
  have p: "ParseDuration (fracNanos testLib) ''42'' = None"
    by (simp add: ParseDuration_def durationLoop.simps durationTerm_def isNumberByte_def
        isDigit_def digit_def unitMap_def Let_def)
  have i: "ParseInt ''42'' = Some 42"
    by (simp add: ParseInt_def ParseUint_def isDigit_def digit_def Let_def)
  show ?thesis
    using set_duration [OF reachesSwitch_duration t, of "VInt 0" "''42''"] reachesSwitch_duration t p
    by (simp add: i)
qed

text \<open>
  Claim C7.  When the location's type has the custom decoder and the
  descriptor has the \<^verbatim>\<open>json\<close> option, \<^verbatim>\<open>set\<close> returns the configuration error
  that names the field and its declared type.  The result is the same whatever
  the two decoders would compute and the content of the location is the one
  before the call: neither decoder has run.  Every descriptor that \<^verbatim>\<open>walk\<close>
  produces is bound to a settable location (\<open>walk_settable\<close> below).
\<close>

theorem set_custom_decoder_with_json:
  assumes "CanSet (value f)" and "unmarshaler lib (value f) \<noteq> None" and "json f"
  shows "set_value lib f cur s =
           (Some (ErrorString
                    (''cannot use '' @ [CHR 0x27] @ ''json'' @ [CHR 0x27]
                     @ '' option on a type with a custom unmarshaller: ''
                     @ Name (field f) @ '' '' @ typeString (Type (field f)))), cur)"
  using assms
  by (subst set_value.simps) (auto simp: Let_def)

theorem set_custom_decoder_with_json_witness:
  "CanSet (value (bound ''string'' False True ''Test'' strType strType [Fld 0]))
   \<and> unmarshaler testLib (value (bound ''string'' False True ''Test'' strType strType [Fld 0])) \<noteq> None
   \<and> json (bound ''string'' False True ''Test'' strType strType [Fld 0])
   \<and> set_value testLib (bound ''string'' False True ''Test'' strType strType [Fld 0])
        (VString []) ''this is a string''
      = (Some (ErrorString
           (''cannot use '' @ [CHR 0x27] @ ''json'' @ [CHR 0x27]
            @ '' option on a type with a custom unmarshaller: Test figgy.str'')), VString [])"
proof -
  have c: "CanSet (value (bound ''string'' False True ''Test'' strType strType [Fld 0]))"
    by (simp add: bound_def location_def CanSet_def)
  have u: "unmarshaler testLib (value (bound ''string'' False True ''Test'' strType strType [Fld 0])) \<noteq> None"
    by (simp add: bound_def location_def unmarshaler_def CanAddr_def CanInterface_def Addr_def
          testLib_def strType_def)
  have j: "json (bound ''string'' False True ''Test'' strType strType [Fld 0])"
    by (simp add: bound_def)
  show ?thesis
    using set_custom_decoder_with_json [OF c u j, of "VString []" "''this is a string''"] c u j
    by (simp add: bound_def strType_def)
qed

lemma setPrim_error_keeps: "fst (setPrim lib k ts cur s) = None \<or> snd (setPrim lib k ts cur s) = cur"
  by (cases k) (simp_all add: setPrim_def split: option.splits)

lemma set_value_TPtr:
  assumes "reachesSwitch lib f" and "vtype (value f) = TPtr n ts e"
  shows "set_value lib f cur s =
           (None, VPtr (Some (snd (set_value lib (valueField (newElem e (loc (value f)))) (zero e) s))))"
proof -
  have nd: "TPtr n ts e \<noteq> durationType" by (simp add: durationType_def)
  show ?thesis
    unfolding set_value_switch [OF assms(1)] assms(2) using nd by simp
qed

lemma set_value_TSlice:
  assumes "reachesSwitch lib f" and "vtype (value f) = TSlice n ts e"
  shows "set_value lib f cur s =
           (None,
            VSlice (map (\<lambda>(i, w). snd (set_value lib (valueField (Index (value f) e i)) (zero e) w))
                      (enumerate 0 (Split s (CHR '','')))))"
proof -
  have nd: "TSlice n ts e \<noteq> durationType" by (simp add: durationType_def)
  show ?thesis
    unfolding set_value_switch [OF assms(1)] assms(2) using nd by simp
qed

lemma set_value_TStruct:
  assumes "reachesSwitch lib f" and "vtype (value f) = TStruct n ts fs"
  shows "set_value lib f cur s = (None, cur)"
proof -
  have nd: "TStruct n ts fs \<noteq> durationType" by (simp add: durationType_def)
  show ?thesis
    unfolding set_value_switch [OF assms(1)] assms(2) using nd by simp
qed

lemma set_value_TPrim:
  assumes "reachesSwitch lib f" and "vtype (value f) = TPrim n ts k"
  shows "set_value lib f cur s =
           (case (if TPrim n ts k = durationType then ParseDuration (fracNanos lib) s else None) of
              Some p \<Rightarrow> (None, VInt p)
            | None \<Rightarrow> setPrim lib k ts cur s)"
  unfolding set_value_switch [OF assms(1)] assms(2)
  by (simp only: gtype.case cong: option.case_cong)

lemma set_value_error_keeps:
  assumes r: "reachesSwitch lib f" and e: "fst (set_value lib f cur s) \<noteq> None"
  shows "snd (set_value lib f cur s) = cur"
proof (cases "vtype (value f)")
  case (TPrim n ts k)
  show ?thesis
  proof (cases "if TPrim n ts k = durationType then ParseDuration (fracNanos lib) s else None")
    case None
    then have eq: "set_value lib f cur s = setPrim lib k ts cur s"
      by (simp only: set_value_TPrim [OF r TPrim] option.case)
    have "fst (setPrim lib k ts cur s) \<noteq> None" using e unfolding eq .
    with setPrim_error_keeps [of lib k ts cur s] have "snd (setPrim lib k ts cur s) = cur" by blast
    then show ?thesis by (simp only: eq)
  next
    case (Some p)
    then have "set_value lib f cur s = (None, VInt p)"
      by (simp only: set_value_TPrim [OF r TPrim] option.case)
    then show ?thesis using e by simp
  qed
next
  case (TPtr n ts el)
  show ?thesis using e by (simp add: set_value_TPtr [OF r TPtr])
next
  case (TSlice n ts el)
  show ?thesis using e by (simp add: set_value_TSlice [OF r TSlice])
next
  case (TStruct n ts fs)
  show ?thesis using e by (simp add: set_value_TStruct [OF r TStruct])
qed

lemma reachesSwitch_valueField:
  "unmarshaler lib (newElem e l) = None \<Longrightarrow> reachesSwitch lib (valueField (newElem e l))"
  by (simp add: reachesSwitch_def valueField_def newElem_def CanSet_def)

text \<open>
  Claim C10, as amended.  For a descriptor bound to a pointer-typed location
  that reaches the \<^verbatim>\<open>switch\<close> (settable, no custom decoder for the pointer type,
  no \<^verbatim>\<open>json\<close> option) and every text, \<^verbatim>\<open>set\<close> returns no error and binds the
  location to a fresh target that holds what the conversion of the text into
  a zero value of the pointed-to type has left there; the result of that inner
  conversion is dropped.  When the pointed-to type has no custom decoder of
  its own and the inner conversion fails, the target is the zero value.
\<close>

theorem set_pointer:
  assumes "reachesSwitch lib f" and "vtype (value f) = TPtr n ts e"
  shows "set_value lib f cur s =
           (None, VPtr (Some (snd (set_value lib (valueField (newElem e (loc (value f)))) (zero e) s))))
       \<and> (unmarshaler lib (newElem e (loc (value f))) = None
            \<and> fst (set_value lib (valueField (newElem e (loc (value f)))) (zero e) s) \<noteq> None
            \<longrightarrow> set_value lib f cur s = (None, VPtr (Some (zero e))))"
proof (intro conjI impI)
  show eq: "set_value lib f cur s =
           (None, VPtr (Some (snd (set_value lib (valueField (newElem e (loc (value f)))) (zero e) s))))"
    by (rule set_value_TPtr [OF assms])
  assume a: "unmarshaler lib (newElem e (loc (value f))) = None
            \<and> fst (set_value lib (valueField (newElem e (loc (value f)))) (zero e) s) \<noteq> None"
  then have r: "reachesSwitch lib (valueField (newElem e (loc (value f))))"
    by (simp add: reachesSwitch_valueField)
  have "snd (set_value lib (valueField (newElem e (loc (value f)))) (zero e) s) = zero e"
    using a by (intro set_value_error_keeps [OF r]) simp
  then show "set_value lib f cur s = (None, VPtr (Some (zero e)))"
    by (simp only: eq)
qed

theorem set_pointer_witness:
  "reachesSwitch testLib pointerField
   \<and> vtype (value pointerField) = TPtr [] ''*int'' intType
   \<and> unmarshaler testLib (newElem intType (loc (value pointerField))) = None
   \<and> fst (set_value testLib (valueField (newElem intType (loc (value pointerField))))
             (zero intType) ''x'') \<noteq> None
   \<and> set_value testLib pointerField (VPtr None) ''x'' = (None, VPtr (Some (VInt 0)))"
proof -
  have r: "reachesSwitch testLib pointerField"
    by (simp add: reachesSwitch_def pointerField_def bound_def location_def CanSet_def
          unmarshaler_def CanInterface_def testLib_def ptrTo_def intType_def strType_def)
  have t: "vtype (value pointerField) = TPtr [] ''*int'' intType"
    by (simp add: pointerField_def bound_def location_def ptrTo_def intType_def)
  have u: "unmarshaler testLib (newElem intType (loc (value pointerField))) = None"
    by (simp add: unmarshaler_def newElem_def CanAddr_def CanInterface_def Addr_def
          testLib_def ptrTo_def intType_def strType_def)
  have i: "fst (set_value testLib (valueField (newElem intType (loc (value pointerField))))
             (zero intType) ''x'') \<noteq> None"
    unfolding set_value_TPrim [OF reachesSwitch_valueField [OF u], of "''int''" "''int''" KInt,
                unfolded newElem_def valueField_def intType_def, simplified,
                folded intType_def valueField_def newElem_def]
    by (simp add: intType_def durationType_def setPrim_def ParseInt_def ParseUint_def isDigit_def)
  have z: "zero intType = VInt 0" by (simp add: intType_def)
  have "set_value testLib pointerField (VPtr None) ''x'' = (None, VPtr (Some (zero intType)))"
    using set_pointer [OF r t, of "VPtr None" "''x''"] u i by blast
  then have "set_value testLib pointerField (VPtr None) ''x'' = (None, VPtr (Some (VInt 0)))"
    by (simp only: z)
  with r t u i show ?thesis by blast
qed

text \<open>
  Claim C10 as stated covers every pointer-typed location.  For the field
  \<^verbatim>\<open>PP **int\<close> with the \<^verbatim>\<open>json\<close> option the location is a \<open>nil\<close> \<^verbatim>\<open>*int\<close>; the
  \<^verbatim>\<open>json\<close> option comes before the \<^verbatim>\<open>switch\<close>, the decoder rejects the \<open>nil\<close>
  pointer, and \<^verbatim>\<open>set\<close> returns the error with the location still \<open>nil\<close>.  And
  for a location of the named pointer type \<open>P\<close> the pointer case runs the
  target's custom decoder; when that decoder stores the text and then fails,
  the error is dropped and the target is not the zero value.
\<close>

theorem set_pointer_counterexamples:
  "isPtr (vtype (value jsonPointerField)) \<and> CanSet (value jsonPointerField)
   \<and> set_value testLib jsonPointerField (VPtr None) ''1''
       = (Some (ErrorString (''json unmarshal error for field '' @ [CHR 0x27] @ ''PP'' @ [CHR 0x27])),
          VPtr None)
   \<and> isPtr (vtype (value namedPointerField)) \<and> reachesSwitch strictLib namedPointerField
   \<and> fst (set_value strictLib
             (valueField (newElem strType (loc (value namedPointerField)))) (zero strType) ''x'')
       = Some (ErrorString ''rejected'')
   \<and> set_value strictLib namedPointerField (VPtr None) ''x'' = (None, VPtr (Some (VString ''x'')))
   \<and> zero strType \<noteq> VString ''x''"
  by (simp add: set_value.simps jsonPointerField_def namedPointerField_def bound_def location_def
        valueField_def newElem_def reachesSwitch_def CanSet_def
        unmarshaler_def CanInterface_def CanAddr_def Addr_def setJSON_def throughAddr_def
        storeThenReject_def strictLib_def testLib_def ptrTo_def
        intType_def strType_def durationType_def Let_def)

text \<open>
  The slice case of \<^verbatim>\<open>set\<close> (lines 587-595).  For a descriptor bound to a
  slice-typed location that reaches the \<^verbatim>\<open>switch\<close> and every text, \<^verbatim>\<open>set\<close>
  splits the text on commas, makes a slice of that many zero elements and
  calls itself on each piece and its element.  The call is a statement: the
  error it returns is not looked at, and the slice case returns \<^verbatim>\<open>nil\<close>.
\<close>

lemma set_value_slice_elements:
  assumes "reachesSwitch lib f" and "vtype (value f) = TSlice n ts e"
  shows "\<exists>xs. set_value lib f cur s = (None, VSlice xs)
           \<and> length xs = length (Split s (CHR '',''))
           \<and> (\<forall>i < length xs.
                 xs ! i = snd (set_value lib (valueField (Index (value f) e i)) (zero e)
                                 (Split s (CHR '','') ! i)))"
  unfolding set_value_TSlice [OF assms]
  by (simp add: nth_enumerate_eq)

lemma sliceField_reachesSwitch:
  "reachesSwitch testLib sliceField \<and> vtype (value sliceField) = TSlice [] ''[]int'' intType"
  by (simp add: reachesSwitch_def sliceField_def bound_def location_def CanSet_def
        unmarshaler_def CanInterface_def CanAddr_def testLib_def ptrTo_def intType_def
        intSliceType_def strType_def)

text \<open>
  Claim C2: when the conversion of an element of a slice fails, that failure
  is the result of the conversion of the whole slice.  The code does not do
  this.  The field \<^verbatim>\<open>Slice []int\<close> of the repository's test record is settable,
  has no custom decoder and no json option, so it reaches the slice case.
  With the text \<^verbatim>\<open>1,x,3\<close> the conversion of the second piece \<^verbatim>\<open>x\<close> into its
  \<^verbatim>\<open>int\<close> element fails with a \<open>ConvertTypeError\<close>, as it does for an \<^verbatim>\<open>int\<close>
  field; the conversion of the slice nevertheless returns no error and
  leaves the slice \<^verbatim>\<open>[1, 0, 3]\<close>.
\<close>

theorem set_slice_drops_element_error:
  "reachesSwitch testLib sliceField
   \<and> vtype (value sliceField) = TSlice [] ''[]int'' intType
   \<and> Split ''1,x,3'' (CHR '','') = [''1'', ''x'', ''3'']
   \<and> fst (set_value testLib (valueField (Index (value sliceField) intType 1)) (zero intType) ''x'')
       = Some (ConvertTypeError [] ''int'' ''x'')
   \<and> set_value testLib sliceField (VSlice []) ''1,x,3'' = (None, VSlice [VInt 1, VInt 0, VInt 3])"
proof -
  have a: "Split ''1,x,3'' (CHR '','') = [''1'', ''x'', ''3'']"
    by code_simp
  have b: "fst (set_value testLib (valueField (Index (value sliceField) intType 1)) (zero intType) ''x'')
             = Some (ConvertTypeError [] ''int'' ''x'')
           \<and> set_value testLib sliceField (VSlice []) ''1,x,3''
             = (None, VSlice [VInt 1, VInt 0, VInt 3])"
    by (simp add: set_value.simps sliceField_def bound_def location_def CanSet_def
          unmarshaler_def CanInterface_def CanAddr_def Addr_def Index_def valueField_def
          testLib_def ptrTo_def intType_def intSliceType_def strType_def durationType_def
          setPrim_def ParseInt_def ParseUint_def isDigit_def digit_def OverflowInt_def
          enumerate_eq_zip Let_def)
  from sliceField_reachesSwitch a b show ?thesis by blast
qed

section \<open>Properties of the field walker\<close>

lemma prepend_Nil [simp]: "prepend [] r = r"
  by (auto simp: prepend_def split: result.splits sum.splits)

lemma prepend_prepend: "prepend a (prepend b r) = prepend (a @ b) r"
  by (auto simp: prepend_def split: result.splits sum.splits)

lemma walkFields_step:
  "walkFields tpl data v i (ft # fts) (fv0 # vs) =
     (case walkField tpl data v i ft fv0 of
        (Returns (Inr hs), c) \<Rightarrow>
          (case walkFields tpl data v (i + 1) fts vs of (r, vs1) \<Rightarrow> (prepend hs r, c # vs1))
      | (other, c) \<Rightarrow> (other, c # vs))"
  unfolding walkFields.simps(3) walkField_def Let_def
  by (auto split: sum.splits option.splits prod.splits result.splits)


lemma walkFields_append:
  assumes "length pvs = length pre"
      and "walkFields tpl data v i pre pvs = (Returns (Inr ps), pvs1)"
  shows "walkFields tpl data v i (pre @ post) (pvs @ rest) =
           (case walkFields tpl data v (i + length pre) post rest of
              (r, rest1) \<Rightarrow> (prepend ps r, pvs1 @ rest1))"
  using assms
proof (induction pre arbitrary: pvs i ps pvs1)
  case Nil
  then have "pvs = []" by simp
  with Nil.prems(2) have "ps = []" "pvs1 = []" by (simp_all add: walkFields.simps(1))
  then show ?case by (simp add: \<open>pvs = []\<close> split: prod.splits)
next
  case (Cons ft fts)
  then obtain fv0 vs where pvs: "pvs = fv0 # vs" and len: "length vs = length fts"
    by (cases pvs) auto
  obtain h c where wf: "walkField tpl data v i ft fv0 = (h, c)"
    by (cases "walkField tpl data v i ft fv0")
  obtain r1 vs1 where tl: "walkFields tpl data v (i + 1) fts vs = (r1, vs1)"
    by (cases "walkFields tpl data v (i + 1) fts vs")
  from Cons.prems(2) have
    "\<exists>hs ps1. h = Returns (Inr hs) \<and> r1 = Returns (Inr ps1) \<and> ps = hs @ ps1 \<and> pvs1 = c # vs1"
    unfolding pvs walkFields_step wf tl
    by (auto simp: prepend_def split: result.splits sum.splits)
  then obtain hs ps1 where h: "h = Returns (Inr hs)" and r1: "r1 = Returns (Inr ps1)"
    and ps: "ps = hs @ ps1" and pvs1: "pvs1 = c # vs1" by blast
  have IH: "walkFields tpl data v (i + 1) (fts @ post) (vs @ rest) =
           (case walkFields tpl data v (i + 1 + length fts) post rest of
              (r, rest1) \<Rightarrow> (prepend ps1 r, vs1 @ rest1))"
    by (rule Cons.IH [OF len]) (use tl r1 in simp)
  have "walkFields tpl data v i ((ft # fts) @ post) (pvs @ rest) =
          (case walkFields tpl data v (i + 1) (fts @ post) (vs @ rest) of
             (r, vs2) \<Rightarrow> (prepend hs r, c # vs2))"
    by (simp add: pvs walkFields_step wf h)
  also have "\<dots> = (case walkFields tpl data v (i + length (ft # fts)) post rest of
              (r, rest1) \<Rightarrow> (prepend ps r, pvs1 @ rest1))"
    unfolding IH by (simp add: ps pvs1 prepend_prepend add.commute split: prod.splits)
  finally show ?case .
qed

lemma walkField_pointer:
  assumes "PkgPath ft = []" and "Type ft = TPtr n ts e" and "CanSet v"
  shows "snd (walkField tpl data v i ft fv0) =
           VPtr (Some (if tag tpl ft data = Inr None \<and> isStruct e
                       then snd (walk tpl data (Indirect (Field v ft i)) (zero e))
                       else zero e))"
    and "tag tpl ft data = Inr (Some pf) \<Longrightarrow>
         fst (walkField tpl data v i ft fv0)
           = Returns (Inr [pf\<lparr>field := ft, value := Indirect (Field v ft i)\<rparr>])"
proof -
  have k: "isPtr (vtype (Field v ft i))" "CanSet (Field v ft i)"
    "elemType (vtype (Field v ft i)) = e" "vtype (Indirect (Field v ft i)) = e"
    using assms by (simp_all add: Field_def CanSet_def Indirect_def)
  show "snd (walkField tpl data v i ft fv0) =
           VPtr (Some (if tag tpl ft data = Inr None \<and> isStruct e
                       then snd (walk tpl data (Indirect (Field v ft i)) (zero e))
                       else zero e))"
    unfolding walkField_def Let_def using assms(1) k
    by (auto split: sum.splits option.splits prod.splits)
  show "fst (walkField tpl data v i ft fv0)
           = Returns (Inr [pf\<lparr>field := ft, value := Indirect (Field v ft i)\<rparr>])"
    if "tag tpl ft data = Inr (Some pf)"
    unfolding walkField_def Let_def using assms(1) k that by simp
qed

lemma walkField_pointer_struct:
  assumes "PkgPath ft = []" and "Type ft = TPtr n ts e" and "CanSet v"
      and "tag tpl ft data = Inr None" and "isStruct e"
  shows "fst (walkField tpl data v i ft fv0)
           = fst (walk tpl data (Indirect (Field v ft i)) (zero e))"
proof -
  have k: "isPtr (vtype (Field v ft i))" "CanSet (Field v ft i)"
    "elemType (vtype (Field v ft i)) = e" "vtype (Indirect (Field v ft i)) = e"
    using assms by (simp_all add: Field_def CanSet_def Indirect_def)
  show ?thesis
    unfolding walkField_def Let_def using assms(1,4,5) k
    by (simp split: prod.splits)
qed

lemma prepend_Returns:
  "prepend ps r = Returns (Inr qs) \<Longrightarrow> \<exists>qs2. r = Returns (Inr qs2) \<and> qs = ps @ qs2"
  by (auto simp: prepend_def split: result.splits sum.splits)

lemma walk_struct:
  "vtype v = TStruct n ts fs \<Longrightarrow>
   walk tpl data v (VStruct vs) =
     (case walkFields tpl data v 0 fs vs of (r, vs1) \<Rightarrow> (r, VStruct vs1))"
  by (subst walk.simps) simp

lemma walk_reaches_field:
  assumes "vtype v = TStruct sn sts (pre @ ft # post)"
      and "length pvs = length pre"
      and "walkFields tpl data v 0 pre pvs = (Returns (Inr ps), pvs1)"
      and "walkField tpl data v (length pre) ft fv0 = (h, c)"
  shows "\<exists>r2 rest1.
           walk tpl data v (VStruct (pvs @ fv0 # rest)) = (prepend ps r2, VStruct (pvs1 @ c # rest1))
           \<and> (\<forall>qs. r2 = Returns (Inr qs) \<longrightarrow> (\<exists>hs qs2. h = Returns (Inr hs) \<and> qs = hs @ qs2))"
proof -
  let ?k = "length pre"
  obtain a b where t2: "walkFields tpl data v (?k + 1) post rest = (a, b)"
    by (cases "walkFields tpl data v (?k + 1) post rest")
  define r2 where "r2 = (case h of Returns (Inr hs) \<Rightarrow> prepend hs a | other \<Rightarrow> other)"
  define vs2 where "vs2 = (case h of Returns (Inr hs) \<Rightarrow> b | other \<Rightarrow> rest)"
  have hd: "walkFields tpl data v ?k (ft # post) (fv0 # rest) = (r2, c # vs2)"
    unfolding walkFields_step assms(4) t2 r2_def vs2_def
    by (cases h) (auto split: sum.splits)
  have "walkFields tpl data v 0 (pre @ ft # post) (pvs @ fv0 # rest) =
          (prepend ps r2, pvs1 @ c # vs2)"
    by (simp add: walkFields_append [OF assms(2,3)] hd)
  then have w: "walk tpl data v (VStruct (pvs @ fv0 # rest))
                  = (prepend ps r2, VStruct (pvs1 @ c # vs2))"
    by (simp add: walk_struct [OF assms(1)])
  have "\<exists>hs qs2. h = Returns (Inr hs) \<and> qs = hs @ qs2" if "r2 = Returns (Inr qs)" for qs
    using that unfolding r2_def
    by (cases h) (auto split: sum.splits dest: prepend_Returns)
  with w show ?thesis by blast
qed

text \<open>
  Claim C9.  Let \<^verbatim>\<open>walk\<close> be called on a settable struct and let its loop reach
  an exported field of pointer type (the fields before it have been traversed
  without error).  Then, whatever the field held before, whatever its
  annotation gives (a descriptor, none, or an error) and whatever the rest of
  the traversal does, the struct that \<^verbatim>\<open>walk\<close> leaves holds in that field a
  pointer to a fresh target: the zero value of the pointed-to type, traversed
  in turn when that type is a struct and the field has no annotation.  The
  traversal goes on against the dereferenced target: when the annotation
  gives a descriptor and \<^verbatim>\<open>walk\<close> returns its list, the descriptor is in the
  list, after those of the earlier fields, bound to the dereferenced target;
  when there is no annotation and the target is a struct, the list has at
  that place the descriptors that \<^verbatim>\<open>walk\<close> returns for the dereferenced target.
\<close>

theorem walk_allocates_pointer_fields:
  assumes "vtype v = TStruct sn sts (pre @ ft # post)"
      and "length pvs = length pre"
      and "walkFields tpl data v 0 pre pvs = (Returns (Inr ps), pvs1)"
      and "PkgPath ft = []" and "Type ft = TPtr n ts e" and "CanSet v"
  shows "\<exists>r rest1.
           walk tpl data v (VStruct (pvs @ fv0 # rest))
             = (r, VStruct (pvs1 @ VPtr (Some (if tag tpl ft data = Inr None \<and> isStruct e
                                               then snd (walk tpl data
                                                           (Indirect (Field v ft (length pre)))
                                                           (zero e))
                                               else zero e)) # rest1))
           \<and> (\<forall>pf qs. tag tpl ft data = Inr (Some pf) \<longrightarrow> r = Returns (Inr qs) \<longrightarrow>
                 (\<exists>qs2. qs = ps @ pf\<lparr>field := ft,
                                       value := Indirect (Field v ft (length pre))\<rparr> # qs2))
           \<and> (\<forall>qs. tag tpl ft data = Inr None \<longrightarrow> isStruct e \<longrightarrow> r = Returns (Inr qs) \<longrightarrow>
                 (\<exists>ns qs2. fst (walk tpl data (Indirect (Field v ft (length pre))) (zero e))
                              = Returns (Inr ns)
                            \<and> qs = ps @ ns @ qs2))"
proof -
  let ?k = "length pre"
  let ?y = "if tag tpl ft data = Inr None \<and> isStruct e
            then snd (walk tpl data (Indirect (Field v ft ?k)) (zero e)) else zero e"
  obtain h c where wf: "walkField tpl data v ?k ft fv0 = (h, c)"
    by (cases "walkField tpl data v ?k ft fv0")
  have c: "c = VPtr (Some ?y)"
    using walkField_pointer(1) [OF assms(4,5,6), of tpl data ?k fv0] by (simp add: wf)
  from walk_reaches_field [OF assms(1,2,3) wf, of rest]
  obtain r2 rest1 where
    w: "walk tpl data v (VStruct (pvs @ fv0 # rest)) = (prepend ps r2, VStruct (pvs1 @ c # rest1))"
    and r2: "\<And>qs. r2 = Returns (Inr qs) \<Longrightarrow> \<exists>hs qs2. h = Returns (Inr hs) \<and> qs = hs @ qs2"
    by blast
  have d: "\<exists>qs2. qs = ps @ pf\<lparr>field := ft, value := Indirect (Field v ft ?k)\<rparr> # qs2"
    if t: "tag tpl ft data = Inr (Some pf)" and r: "prepend ps r2 = Returns (Inr qs)" for pf qs
  proof -
    from prepend_Returns [OF r] obtain q where q: "r2 = Returns (Inr q)" "qs = ps @ q" by blast
    from r2 [OF q(1)] obtain hs qs2 where h: "h = Returns (Inr hs)" "q = hs @ qs2" by blast
    have "h = Returns (Inr [pf\<lparr>field := ft, value := Indirect (Field v ft ?k)\<rparr>])"
      using walkField_pointer(2) [OF assms(4,5,6) t, of ?k fv0] by (simp add: wf)
    with h(1) have "hs = [pf\<lparr>field := ft, value := Indirect (Field v ft ?k)\<rparr>]" by simp
    then show ?thesis by (simp add: q(2) h(2))
  qed
  have s: "\<exists>ns qs2. fst (walk tpl data (Indirect (Field v ft ?k)) (zero e)) = Returns (Inr ns)
                     \<and> qs = ps @ ns @ qs2"
    if t: "tag tpl ft data = Inr None" and e: "isStruct e"
      and r: "prepend ps r2 = Returns (Inr qs)" for qs
  proof -
    from prepend_Returns [OF r] obtain q where q: "r2 = Returns (Inr q)" "qs = ps @ q" by blast
    from r2 [OF q(1)] obtain hs qs2 where h: "h = Returns (Inr hs)" "q = hs @ qs2" by blast
    have "h = fst (walk tpl data (Indirect (Field v ft ?k)) (zero e))"
      using walkField_pointer_struct [OF assms(4,5,6) t e, of ?k fv0] by (simp add: wf)
    with h(1) have "fst (walk tpl data (Indirect (Field v ft ?k)) (zero e)) = Returns (Inr hs)"
      by simp
    then show ?thesis by (simp add: q(2) h(2))
  qed
  have "walk tpl data v (VStruct (pvs @ fv0 # rest))
          = (prepend ps r2, VStruct (pvs1 @ VPtr (Some ?y) # rest1))"
    using w c by simp
  moreover have "\<forall>pf qs. tag tpl ft data = Inr (Some pf) \<longrightarrow> prepend ps r2 = Returns (Inr qs) \<longrightarrow>
                   (\<exists>qs2. qs = ps @ pf\<lparr>field := ft, value := Indirect (Field v ft ?k)\<rparr> # qs2)"
    using d by blast
  moreover have "\<forall>qs. tag tpl ft data = Inr None \<longrightarrow> isStruct e \<longrightarrow> prepend ps r2 = Returns (Inr qs) \<longrightarrow>
                   (\<exists>ns qs2. fst (walk tpl data (Indirect (Field v ft ?k)) (zero e)) = Returns (Inr ns)
                              \<and> qs = ps @ ns @ qs2)"
    using s by blast
  ultimately show ?thesis by blast
qed

lemma pointerRecord_settable:
  "CanSet pointerRecord"
  "CanSet (Indirect (Field pointerRecord (StructField ''PNested'' [] [] (ptrTo nestedType)) 2))"
  by (simp_all add: CanSet_def pointerRecord_def Indirect_def Field_def)

lemma pointerRecord_type:
  "vtype pointerRecord =
     TStruct [] ''struct { String string; P *int; PNested *figgy.Nested }''
       ([StructField ''String'' [] ''string'' stringType]
          @ StructField ''P'' [] [] (ptrTo intType)
          # [StructField ''PNested'' [] [] (ptrTo nestedType)])"
  "vtype pointerRecord =
     TStruct [] ''struct { String string; P *int; PNested *figgy.Nested }''
       ([StructField ''String'' [] ''string'' stringType, StructField ''P'' [] [] (ptrTo intType)]
          @ StructField ''PNested'' [] [] (ptrTo nestedType) # [])"
  "vtype (Indirect (Field pointerRecord (StructField ''PNested'' [] [] (ptrTo nestedType)) 2)) =
     TStruct ''Nested'' ''figgy.Nested''
       ([StructField ''String'' [] ''string'' stringType]
          @ StructField ''PString'' [] ''pstring'' (ptrTo stringType) # [])"
  by (simp_all add: pointerRecord_def pointerRecordType_def nestedType_def Indirect_def Field_def
        ptrTo_def)

lemma walkFields_pointerRecord_prefix:
  "walkFields noTemplate None pointerRecord 0
     [StructField ''String'' [] ''string'' stringType] [VString []]
   = (Returns (Inr [bound ''string'' False False ''String'' stringType stringType [Fld 0]]),
      [VString []])"
  "walkFields noTemplate None pointerRecord 0
     [StructField ''String'' [] ''string'' stringType, StructField ''P'' [] [] (ptrTo intType)]
     [VString [], VPtr (Some (VInt 7))]
   = (Returns (Inr [bound ''string'' False False ''String'' stringType stringType [Fld 0]]),
      [VString [], VPtr (Some (VInt 0))])"
  "walkFields noTemplate None
     (Indirect (Field pointerRecord (StructField ''PNested'' [] [] (ptrTo nestedType)) 2)) 0
     [StructField ''String'' [] ''string'' stringType] [VString []]
   = (Returns (Inr [bound ''string'' False False ''String'' stringType stringType
                      [Fld 2, Deref, Fld 0]]),
      [VString []])"
  by code_simp+

lemma tag_pointerRecord:
  "tag noTemplate (StructField ''P'' [] [] (ptrTo intType)) None = Inr None"
  "tag noTemplate (StructField ''PNested'' [] [] (ptrTo nestedType)) None = Inr None"
  "tag noTemplate (StructField ''PString'' [] ''pstring'' (ptrTo stringType)) None
   = Inr (Some (newField ''pstring'' False))"
  by code_simp+

lemma walk_nested:
  "walk noTemplate None
     (Indirect (Field pointerRecord (StructField ''PNested'' [] [] (ptrTo nestedType)) 2))
     (zero nestedType)
   = (Returns (Inr [bound ''string'' False False ''String'' stringType stringType
                      [Fld 2, Deref, Fld 0],
                    bound ''pstring'' False False ''PString'' (ptrTo stringType) stringType
                      [Fld 2, Deref, Fld 1, Deref]]),
      VStruct [VString [], VPtr (Some (VString []))])"
  by code_simp

lemma walk_pointerRecord:
  "walk noTemplate None pointerRecord (VStruct [VString [], VPtr (Some (VInt 7)), VPtr None])
   = (Returns (Inr [bound ''string'' False False ''String'' stringType stringType [Fld 0],
                    bound ''string'' False False ''String'' stringType stringType
                      [Fld 2, Deref, Fld 0],
                    bound ''pstring'' False False ''PString'' (ptrTo stringType) stringType
                      [Fld 2, Deref, Fld 1, Deref]]),
      VStruct [VString [], VPtr (Some (VInt 0)),
               VPtr (Some (VStruct [VString [], VPtr (Some (VString []))]))])"
  by code_simp

lemma bound_pstring:
  "(newField ''pstring'' False)
     \<lparr>field := StructField ''PString'' [] ''pstring'' (ptrTo stringType),
      value := Indirect (Field
                 (Indirect (Field pointerRecord
                    (StructField ''PNested'' [] [] (ptrTo nestedType)) 2))
                 (StructField ''PString'' [] ''pstring'' (ptrTo stringType))
                 (length [StructField ''String'' [] ''string'' stringType]))\<rparr>
   = bound ''pstring'' False False ''PString'' (ptrTo stringType) stringType
       [Fld 2, Deref, Fld 1, Deref]"
  by code_simp

theorem walk_allocates_pointer_fields_witness:
  "CanSet pointerRecord
   \<and> (\<exists>r rest1.
         walk noTemplate None pointerRecord
           (VStruct ([VString []] @ VPtr (Some (VInt 7)) # [VPtr None]))
         = (r, VStruct ([VString []] @ VPtr (Some (VInt 0)) # rest1)))
   \<and> (\<exists>rest1 ns qs2.
         walk noTemplate None pointerRecord
           (VStruct ([VString [], VPtr (Some (VInt 7))] @ VPtr None # []))
         = (Returns (Inr ([bound ''string'' False False ''String'' stringType stringType [Fld 0]]
                          @ ns @ qs2)),
            VStruct ([VString [], VPtr (Some (VInt 0))]
                     @ VPtr (Some (VStruct [VString [], VPtr (Some (VString []))])) # rest1))
         \<and> ns = [bound ''string'' False False ''String'' stringType stringType
                    [Fld 2, Deref, Fld 0],
                  bound ''pstring'' False False ''PString'' (ptrTo stringType) stringType
                    [Fld 2, Deref, Fld 1, Deref]])
   \<and> (\<exists>rest1 qs2.
         walk noTemplate None
           (Indirect (Field pointerRecord (StructField ''PNested'' [] [] (ptrTo nestedType)) 2))
           (VStruct ([VString []] @ VPtr None # []))
         = (Returns (Inr ([bound ''string'' False False ''String'' stringType stringType
                             [Fld 2, Deref, Fld 0]]
                          @ bound ''pstring'' False False ''PString'' (ptrTo stringType) stringType
                              [Fld 2, Deref, Fld 1, Deref] # qs2)),
            VStruct ([VString []] @ VPtr (Some (VString [])) # rest1)))"
proof -
  let ?n = "Indirect (Field pointerRecord (StructField ''PNested'' [] [] (ptrTo nestedType)) 2)"
  have l1: "length [VString []] = length [StructField ''String'' [] ''string'' stringType]"
    by simp
  have l2: "length [VString [], VPtr (Some (VInt 7))]
              = length [StructField ''String'' [] ''string'' stringType,
                        StructField ''P'' [] [] (ptrTo intType)]"
    by simp
  have e: "PkgPath (StructField ''P'' [] [] (ptrTo intType)) = []"
    "PkgPath (StructField ''PNested'' [] [] (ptrTo nestedType)) = []"
    "PkgPath (StructField ''PString'' [] ''pstring'' (ptrTo stringType)) = []"
    by simp_all
  have t: "Type (StructField ''P'' [] [] (ptrTo intType)) = TPtr [] ''*int'' intType"
    "Type (StructField ''PNested'' [] [] (ptrTo nestedType)) = TPtr [] ''*figgy.Nested'' nestedType"
    "Type (StructField ''PString'' [] ''pstring'' (ptrTo stringType)) = TPtr [] ''*string'' stringType"
    by (simp_all add: ptrTo_def intType_def nestedType_def stringType_def)
  have z: "\<not> isStruct intType" "isStruct nestedType" "zero intType = VInt 0"
    "zero stringType = VString []"
    by (simp_all add: intType_def nestedType_def stringType_def)
  note a = walk_allocates_pointer_fields
             [OF pointerRecord_type(1) l1 walkFields_pointerRecord_prefix(1) e(1) t(1)
                 pointerRecord_settable(1), of "VPtr (Some (VInt 7))" "[VPtr None]"]
  have c1: "\<exists>r rest1.
         walk noTemplate None pointerRecord
           (VStruct ([VString []] @ VPtr (Some (VInt 7)) # [VPtr None]))
         = (r, VStruct ([VString []] @ VPtr (Some (VInt 0)) # rest1))"
    using a by (auto simp add: tag_pointerRecord z)
  note b = walk_allocates_pointer_fields
             [OF pointerRecord_type(2) l2 walkFields_pointerRecord_prefix(2) e(2) t(2)
                 pointerRecord_settable(1), of "VPtr None" "[]"]
  have c2: "\<exists>rest1 ns qs2.
         walk noTemplate None pointerRecord
           (VStruct ([VString [], VPtr (Some (VInt 7))] @ VPtr None # []))
         = (Returns (Inr ([bound ''string'' False False ''String'' stringType stringType [Fld 0]]
                          @ ns @ qs2)),
            VStruct ([VString [], VPtr (Some (VInt 0))]
                     @ VPtr (Some (VStruct [VString [], VPtr (Some (VString []))])) # rest1))
         \<and> ns = [bound ''string'' False False ''String'' stringType stringType
                    [Fld 2, Deref, Fld 0],
                  bound ''pstring'' False False ''PString'' (ptrTo stringType) stringType
                    [Fld 2, Deref, Fld 1, Deref]]"
    using b by (auto simp add: tag_pointerRecord z walk_nested walk_pointerRecord)
  note c = walk_allocates_pointer_fields
             [OF pointerRecord_type(3) l1 walkFields_pointerRecord_prefix(3) e(3) t(3)
                 pointerRecord_settable(2), of "VPtr None" "[]"]
  have c3: "\<exists>rest1 qs2.
         walk noTemplate None ?n (VStruct ([VString []] @ VPtr None # []))
         = (Returns (Inr ([bound ''string'' False False ''String'' stringType stringType
                             [Fld 2, Deref, Fld 0]]
                          @ bound ''pstring'' False False ''PString'' (ptrTo stringType) stringType
                              [Fld 2, Deref, Fld 1, Deref] # qs2)),
            VStruct ([VString []] @ VPtr (Some (VString [])) # rest1))"
    using c walk_nested
    by (auto simp add: tag_pointerRecord z bound_pstring nestedType_def ptrTo_def stringType_def)
  show ?thesis
    using pointerRecord_settable(1) c1 c2 c3 by blast
qed

text \<open>
  Every descriptor that \<^verbatim>\<open>walk\<close> produces from a settable struct is bound to a
  settable location, so the first check of \<^verbatim>\<open>set\<close> does not fire on them.
\<close>

lemma walkField_settable:
  assumes v: "CanSet v"
      and IH: "\<And>ps x1 x. PkgPath ft = [] \<Longrightarrow>
                 walk tpl data (if isPtr (Type ft) then Indirect (Field v ft i) else Field v ft i) x
                   = (Returns (Inr ps), x1) \<Longrightarrow> \<forall>p\<in>set ps. CanSet (value p)"
      and r: "walkField tpl data v i ft fv0 = (Returns (Inr hs), c)"
  shows "\<forall>p\<in>set hs. CanSet (value p)"
proof (cases "PkgPath ft = []")
  case False
  then show ?thesis using r by (simp add: walkField_def)
next
  case True
  have f: "CanSet (Field v ft i)" "CanSet (Indirect (Field v ft i))" "vtype (Field v ft i) = Type ft"
    using v True by (simp_all add: CanSet_def Field_def Indirect_def)
  show ?thesis
    using r IH [OF True] f True
    unfolding walkField_def Let_def
    by (auto split: sum.splits option.splits prod.splits if_splits)
qed


lemma walkFields_settable:
  assumes v: "CanSet v"
      and sub: "\<And>ft i x ps x1. ft \<in> set fs \<Longrightarrow> PkgPath ft = [] \<Longrightarrow>
                 walk tpl data (if isPtr (Type ft) then Indirect (Field v ft i) else Field v ft i) x
                   = (Returns (Inr ps), x1) \<Longrightarrow> \<forall>p\<in>set ps. CanSet (value p)"
      and r: "walkFields tpl data v i fs vs = (Returns (Inr ps), vs1)"
  shows "\<forall>p\<in>set ps. CanSet (value p)"
  using sub r
proof (induction fs arbitrary: i vs ps vs1)
  case Nil
  then show ?case by (simp add: walkFields.simps(1))
next
  case (Cons ft fts)
  show ?case
  proof (cases vs)
    case Nil
    then show ?thesis using Cons.prems(2) by (simp add: walkFields.simps(2))
  next
    case (Cons fv0 vs')
    obtain h c where wf: "walkField tpl data v i ft fv0 = (h, c)"
      by (cases "walkField tpl data v i ft fv0")
    obtain r1 vs1' where tl: "walkFields tpl data v (i + 1) fts vs' = (r1, vs1')"
      by (cases "walkFields tpl data v (i + 1) fts vs'")
    from Cons.prems(2) have
      "\<exists>hs ps1. h = Returns (Inr hs) \<and> r1 = Returns (Inr ps1) \<and> ps = hs @ ps1"
      unfolding Cons walkFields_step wf tl
      by (auto simp: prepend_def split: result.splits sum.splits)
    then obtain hs ps1 where h: "h = Returns (Inr hs)" and r1: "r1 = Returns (Inr ps1)"
      and ps: "ps = hs @ ps1" by blast
    have a: "\<forall>p\<in>set hs. CanSet (value p)"
      by (rule walkField_settable [OF v _ wf [unfolded h]]) (rule Cons.prems(1), simp_all)
    have b: "\<forall>p\<in>set ps1. CanSet (value p)"
      by (rule Cons.IH [OF _ tl [unfolded r1]]) (rule Cons.prems(1), simp_all)
    show ?thesis using a b by (auto simp: ps)
  qed
qed

lemma size_Type_field: "size (Type ft) < size ft"
  by (cases ft) simp

lemma size_elemType: "size (elemType t) \<le> size t"
  by (cases t) simp_all

lemma walk_settable:
  "CanSet v \<Longrightarrow> walk tpl data v cur = (Returns (Inr ps), cur1) \<Longrightarrow> \<forall>p\<in>set ps. CanSet (value p)"
proof (induction "size (vtype v)" arbitrary: v cur ps cur1 rule: less_induct)
  case less
  from less.prems(2) obtain n ts fs vs where t: "vtype v = TStruct n ts fs" and c: "cur = VStruct vs"
    by (subst (asm) walk.simps) (auto split: gtype.splits gval.splits)
  obtain r vs1 where w: "walkFields tpl data v 0 fs vs = (r, vs1)"
    by (cases "walkFields tpl data v 0 fs vs")
  have r: "r = Returns (Inr ps)"
    using less.prems(2) by (subst (asm) walk.simps) (simp add: t c w)
  show ?case
  proof (rule walkFields_settable [OF less.prems(1) _ w [unfolded r]])
    fix ft i x qs x1
    assume ft: "ft \<in> set fs" and e: "PkgPath ft = []"
      and wk: "walk tpl data (if isPtr (Type ft) then Indirect (Field v ft i) else Field v ft i) x
                 = (Returns (Inr qs), x1)"
    let ?h = "if isPtr (Type ft) then Indirect (Field v ft i) else Field v ft i"
    have "size (Type ft) < size_list size fs"
      by (rule size_list_estimation [OF ft size_Type_field])
    then have sz: "size (vtype ?h) < size (vtype v)"
      using size_elemType [of "Type ft"] by (simp add: t Field_def Indirect_def)
    have cs: "CanSet ?h"
      using less.prems(1) e by (simp add: CanSet_def Field_def Indirect_def)
    show "\<forall>p\<in>set qs. CanSet (value p)"
      by (rule less.hyps [OF sz cs wk])
  qed
qed

section \<open>Properties of the loader\<close>

lemma runBatches_load:
  "runBatches (\<lambda>f. loadParameters lib c f d) bs root = runLoad lib c (map (\<lambda>b. (b, d)) bs) root"
  by (induction bs arbitrary: root) (auto split: prod.splits option.splits)

lemma runLoad_append:
  "runLoad lib c (xs @ ys) root =
     (case runLoad lib c xs root of
        (Some err, root1) \<Rightarrow> (Some err, root1)
      | (None, root1) \<Rightarrow> runLoad lib c ys root1)"
  by (induction xs arbitrary: root) (auto split: prod.splits option.splits)

lemma load_runLoad:
  "load lib c f root = Some (case runLoad lib c (loadOrder f) root of (r, root1) \<Rightarrow> (Returns r, root1))"
proof -
  obtain plain decr where p: "partitionFields f decrypt = (plain, decr)"
    by (cases "partitionFields f decrypt")
  have pos: "0 < maxParameters" by (simp add: maxParameters_def)
  have b1: "batchIterateFields fs maxParameters (\<lambda>f. loadParameters lib c f d) s =
           Some (case runLoad lib c (map (\<lambda>b. (b, d)) (chunks (nat maxParameters) fs)) s of
                   (r, s') \<Rightarrow> (Returns r, s'))" for fs d s
    unfolding batchIterateFields_def
    using batchLoop_chunks [OF pos, of 0 fs "\<lambda>f. loadParameters lib c f d" s]
    by (simp add: runBatches_load)
  show ?thesis
    unfolding load_def loadOrder_def p
    by (simp add: b1 runLoad_append split: prod.splits option.splits)
qed


text \<open>
  Claim C8.  Take a batch of the load that is reached (the batches before it
  have succeeded and left the record as \<open>root1\<close>) and for which the store
  reports a set of names not found that is not empty.  Then \<^verbatim>\<open>loadParameters\<close>
  fails on the batch with the error that names all of them, joined by a comma
  and a space, \<^verbatim>\<open>load\<close> fails with that error and so does
  \<^verbatim>\<open>LoadWithParameters\<close>, with no watcher; the record is still \<open>root1\<close>: no
  field of the batch, or of a later one, has been converted or assigned.
\<close>

theorem LoadWithParameters_invalid_parameters:
  assumes "isPtr t"
      and "walk tpl data \<lparr>vtype = elemType t, flagAddr = True, flagRO = False, loc = []\<rparr> cur
             = (Returns (Inr f), root)"
      and "loadOrder f = pre @ (b, d) # post"
      and "runLoad lib c pre root = (None, root1)"
      and "c (parameterNames b) d = Inr res"
      and "InvalidParameters res \<noteq> []"
  shows "loadParameters lib c b d root1
           = (Some (ErrorString (''invalid parameters: '' @ Join (InvalidParameters res) '', '')), root1)
       \<and> load lib c f root
           = Some (Returns (Some (ErrorString
                     (''invalid parameters: '' @ Join (InvalidParameters res) '', ''))), root1)
       \<and> LoadWithParameters lib tpl mkWatcher c (IVal t (VPtr (Some cur))) data
           = Some (Returns (None, Some (ErrorString
                     (''invalid parameters: '' @ Join (InvalidParameters res) '', ''))),
                   IVal t (VPtr (Some root1)))"
proof -
  let ?e = "ErrorString (''invalid parameters: '' @ Join (InvalidParameters res) '', '')"
  have lp: "loadParameters lib c b d root1 = (Some ?e, root1)"
    using assms(5,6) by (simp add: loadParameters_def getParameters_def)
  have "runLoad lib c (loadOrder f) root = (Some ?e, root1)"
    unfolding assms(3) runLoad_append by (simp add: assms(4) lp)
  then have l: "load lib c f root = Some (Returns (Some ?e), root1)"
    by (simp add: load_runLoad)
  have "LoadWithParameters lib tpl mkWatcher c (IVal t (VPtr (Some cur))) data
           = Some (Returns (None, Some ?e), IVal t (VPtr (Some root1)))"
    unfolding LoadWithParameters_def using assms(1) by (simp add: assms(2) l)
  with lp l show ?thesis by blast
qed

lemma walk_missing:
  "walk noTemplate None \<lparr>vtype = elemType (ptrTo missingType), flagAddr = True, flagRO = False, loc = []\<rparr>
     (zero missingType)
   = (Returns (Inr [bound ''/no/such/param'' False False ''Invalid'' stringType stringType [Fld 0],
                    bound ''/nor/this'' False False ''Other'' stringType stringType [Fld 1]]),
      zero missingType)"
  by code_simp

lemma loadOrder_missing:
  "loadOrder [bound ''/no/such/param'' False False ''Invalid'' stringType stringType [Fld 0],
              bound ''/nor/this'' False False ''Other'' stringType stringType [Fld 1]]
   = [] @ ([bound ''/no/such/param'' False False ''Invalid'' stringType stringType [Fld 0],
            bound ''/nor/this'' False False ''Other'' stringType stringType [Fld 1]], False) # []"
  by code_simp

lemma c_missing:
  "MockSSMClient
     (parameterNames [bound ''/no/such/param'' False False ''Invalid'' stringType stringType [Fld 0],
                      bound ''/nor/this'' False False ''Other'' stringType stringType [Fld 1]]) False
   = Inr \<lparr>Parameters = [], InvalidParameters = [''/no/such/param'', ''/nor/this'']\<rparr>"
  by code_simp

theorem LoadWithParameters_invalid_parameters_witness:
  "isPtr (ptrTo missingType)
   \<and> InvalidParameters \<lparr>Parameters = [], InvalidParameters = [''/no/such/param'', ''/nor/this'']\<rparr> \<noteq> []
   \<and> LoadWithParameters testLib noTemplate noWatcher MockSSMClient
         (IVal (ptrTo missingType) (VPtr (Some (zero missingType)))) None
       = Some (Returns (None, Some (ErrorString ''invalid parameters: /no/such/param, /nor/this'')),
               IVal (ptrTo missingType) (VPtr (Some (zero missingType))))"
proof -
  let ?res = "\<lparr>Parameters = [], InvalidParameters = [''/no/such/param'', ''/nor/this'']\<rparr>"
  have p: "isPtr (ptrTo missingType)" by (simp add: ptrTo_def)
  have r: "runLoad testLib MockSSMClient [] (zero missingType) = (None, zero missingType)"
    by (rule runLoad.simps(1))
  have i: "InvalidParameters ?res \<noteq> []" by simp
  have j: "''invalid parameters: '' @ Join (InvalidParameters ?res) '', ''
           = ''invalid parameters: /no/such/param, /nor/this''" by simp
  note w1 = LoadWithParameters_invalid_parameters [OF p walk_missing]
  note w2 = w1 [OF loadOrder_missing]
  note w3 = w2 [OF r]
  note w4 = w3 [OF c_missing]
  note w5 = w4 [OF i, of noWatcher]
  note w = w5 [unfolded j]
  show ?thesis
    by (intro conjI) (rule p, rule i, rule w [THEN conjunct2, THEN conjunct2])
qed

text \<open>
  The argument check of \<^verbatim>\<open>LoadWithParameters\<close>: for \<open>nil\<close>, for a value that is
  not a pointer and for a \<open>nil\<close> pointer it returns an \<open>InvalidTypeError\<close> with
  the argument's type (none for \<open>nil\<close>) and leaves the argument alone, and the
  three messages differ.
\<close>

lemma LoadWithParameters_invalid_argument:
  assumes "v = INil \<or> (\<exists>t x. v = IVal t x \<and> (\<not> isPtr t \<or> pointee x = None))"
  shows "LoadWithParameters lib tpl mkWatcher c v data
           = Some (Returns (None, Some (InvalidTypeError (TypeOf v))), v)"
  using assms by (auto simp: LoadWithParameters_def)

lemma InvalidTypeError_messages:
  "Error (InvalidTypeError None) = ''nil type''"
  "\<not> isPtr t \<Longrightarrow> Error (InvalidTypeError (Some t)) = ''non-pointer Load('' @ typeString t @ '')''"
  "isPtr t \<Longrightarrow> Error (InvalidTypeError (Some t)) = ''invalid type '' @ typeString t"
  by simp_all

lemma InvalidTypeError_nil_distinct:
  "Error (InvalidTypeError None) \<noteq> Error (InvalidTypeError (Some t))"
  by simp

text \<open>
  Claim C3 asks for an \<open>InvalidTypeError\<close> also when the argument is a pointer
  to something that is not a struct.  The check of \<^verbatim>\<open>LoadWithParameters\<close> looks
  at the pointer only; for a pointer to an \<^verbatim>\<open>int\<close> the code goes on to \<^verbatim>\<open>walk\<close>,
  whose \<^verbatim>\<open>v.NumField()\<close> panics.  Nothing is returned and nothing has been
  mutated.
\<close>

theorem LoadWithParameters_pointer_to_int:
  "LoadWithParameters lib tpl mkWatcher c (IVal (ptrTo intType) (VPtr (Some (VInt 0)))) data
     = Some (Panics ''reflect: call of reflect.Value.NumField on non-struct Value'',
             IVal (ptrTo intType) (VPtr (Some (VInt 0))))"
  by (simp add: LoadWithParameters_def ptrTo_def intType_def walk.simps)

text \<open>
  The pointers that \<^verbatim>\<open>walk\<close> has allocated stay in the caller's record when the
  load fails afterwards: the store of the tests has no parameter \<^verbatim>\<open>pstring\<close>, so
  nothing is converted, and the record holds the fresh targets.
\<close>

lemma LoadWithParameters_keeps_allocated_pointers:
  "LoadWithParameters testLib noTemplate noWatcher MockSSMClient
     (IVal (ptrTo pointerRecordType)
        (VPtr (Some (VStruct [VString [], VPtr (Some (VInt 7)), VPtr None])))) None
   = Some (Returns (None, Some (ErrorString ''invalid parameters: pstring'')),
           IVal (ptrTo pointerRecordType)
             (VPtr (Some (VStruct [VString [], VPtr (Some (VInt 0)),
                                   VPtr (Some (VStruct [VString [], VPtr (Some (VString []))]))]))))"
  by code_simp

end
